theory Spec2Isabelle
  imports Complex_Main
begin

section \<open>The stress-scoring model of static/app.js\<close>

text \<open>
  The dashboard script computes, from three fetched series (SOFR, EFFR, repo volume),
  a spread series, two repo features, z-scores, tail probabilities and a combined stress
  probability. This theory embeds the pure functions of that pipeline
  (\<open>mean\<close>, \<open>std\<close>, \<open>sigmoid\<close>, \<open>tailProbFromZ\<close>, \<open>alignByDate\<close>,
  \<open>computeBeginnerPlus\<close>, \<open>riskLabel\<close> and the feature derivation at the head of
  \<open>renderCorePanels\<close>) and proves properties of them.
\<close>

subsection \<open>JavaScript numbers\<close>

text \<open>
  A JavaScript number is an IEEE-754 double. A finite double is a real number (\<open>Num\<close>);
  the three non-finite values are kept, with the arithmetic the language gives them,
  because the code tests for them (\<open>Number.isFinite\<close>, \<open>std(..) || 1e-9\<close>). On finite
  operands \<open>js_add\<close>, \<open>js_sub\<close>, \<open>js_mul\<close> and \<open>js_div\<close> return the exact result.
  Rounding that result to binary64 is the separate step \<open>js_round\<close>; the model takes it
  in the stress combiner, of which the properties depend on the rounding, and leaves the
  arithmetic of the other functions exact. The sign of zero is not modelled.
  A value read from JSON or from a feature row is a number or \<open>null\<close>: \<open>jsnum option\<close>
  with \<open>None\<close> for \<open>null\<close>.
\<close>

datatype jsnum = Num real | NaN | PInf | NInf

text \<open>\<open>ToNumber\<close> on a number or \<open>null\<close>: \<open>null\<close> converts to \<open>0\<close>.\<close>

fun toNumber :: "jsnum option \<Rightarrow> jsnum" where
  "toNumber None = Num 0"
| "toNumber (Some x) = x"

fun js_neg :: "jsnum \<Rightarrow> jsnum" where
  "js_neg (Num a) = Num (- a)"
| "js_neg NaN = NaN"
| "js_neg PInf = NInf"
| "js_neg NInf = PInf"

fun js_add :: "jsnum \<Rightarrow> jsnum \<Rightarrow> jsnum" where
  "js_add (Num a) (Num b) = Num (a + b)"
| "js_add NaN _ = NaN"
| "js_add _ NaN = NaN"
| "js_add PInf NInf = NaN"
| "js_add NInf PInf = NaN"
| "js_add PInf _ = PInf"
| "js_add _ PInf = PInf"
| "js_add NInf _ = NInf"
| "js_add _ NInf = NInf"

definition js_sub :: "jsnum \<Rightarrow> jsnum \<Rightarrow> jsnum" where
  "js_sub x y = js_add x (js_neg y)"

text \<open>The sign of an infinity times a finite factor; \<open>Infinity * 0\<close> is \<open>NaN\<close>.\<close>

definition inf_times :: "bool \<Rightarrow> real \<Rightarrow> jsnum" where
  "inf_times positive c =
     (if c = 0 then NaN else if (0 < c) = positive then PInf else NInf)"

fun js_mul :: "jsnum \<Rightarrow> jsnum \<Rightarrow> jsnum" where
  "js_mul (Num a) (Num b) = Num (a * b)"
| "js_mul NaN _ = NaN"
| "js_mul _ NaN = NaN"
| "js_mul (Num a) PInf = inf_times True a"
| "js_mul (Num a) NInf = inf_times False a"
| "js_mul PInf (Num b) = inf_times True b"
| "js_mul NInf (Num b) = inf_times False b"
| "js_mul PInf PInf = PInf"
| "js_mul PInf NInf = NInf"
| "js_mul NInf PInf = NInf"
| "js_mul NInf NInf = PInf"

text \<open>
  Division. A zero divisor is read as \<open>+0\<close>; the code never divides by zero (its divisors
  are a non-zero length, \<open>1 + Math.exp(..)\<close> and a standard deviation guarded by
  \<open>|| 1e-9\<close>).
\<close>

fun js_div :: "jsnum \<Rightarrow> jsnum \<Rightarrow> jsnum" where
  "js_div (Num a) (Num b) =
     (if b = 0 then (if a = 0 then NaN else if 0 < a then PInf else NInf) else Num (a / b))"
| "js_div NaN _ = NaN"
| "js_div _ NaN = NaN"
| "js_div (Num a) PInf = Num 0"
| "js_div (Num a) NInf = Num 0"
| "js_div PInf (Num b) = (if 0 \<le> b then PInf else NInf)"
| "js_div NInf (Num b) = (if 0 \<le> b then NInf else PInf)"
| "js_div PInf PInf = NaN"
| "js_div PInf NInf = NaN"
| "js_div NInf PInf = NaN"
| "js_div NInf NInf = NaN"

text \<open>The comparison \<open>x >= y\<close>: false as soon as one side is \<open>NaN\<close>.\<close>

fun js_ge :: "jsnum \<Rightarrow> jsnum \<Rightarrow> bool" where
  "js_ge (Num a) (Num b) = (b \<le> a)"
| "js_ge NaN _ = False"
| "js_ge _ NaN = False"
| "js_ge PInf _ = True"
| "js_ge _ NInf = True"
| "js_ge _ _ = False"

text \<open>\<open>Math.min\<close> and \<open>Math.max\<close> of two arguments: \<open>NaN\<close> if either is \<open>NaN\<close>.\<close>

definition Math_min :: "jsnum \<Rightarrow> jsnum \<Rightarrow> jsnum" where
  "Math_min x y = (if x = NaN \<or> y = NaN then NaN else if js_ge y x then x else y)"

definition Math_max :: "jsnum \<Rightarrow> jsnum \<Rightarrow> jsnum" where
  "Math_max x y = (if x = NaN \<or> y = NaN then NaN else if js_ge x y then x else y)"

fun Math_abs :: "jsnum \<Rightarrow> jsnum" where
  "Math_abs (Num a) = Num \<bar>a\<bar>"
| "Math_abs NaN = NaN"
| "Math_abs PInf = PInf"
| "Math_abs NInf = PInf"

fun Math_exp :: "jsnum \<Rightarrow> jsnum" where
  "Math_exp (Num a) = Num (exp a)"
| "Math_exp NaN = NaN"
| "Math_exp PInf = PInf"
| "Math_exp NInf = Num 0"

text \<open>\<open>Math.log1p(x)\<close> is \<open>ln (1 + x)\<close>: \<open>-Infinity\<close> at \<open>-1\<close>, \<open>NaN\<close> below.\<close>

fun Math_log1p :: "jsnum \<Rightarrow> jsnum" where
  "Math_log1p (Num a) =
     (if - 1 < a then Num (ln (1 + a)) else if a = - 1 then NInf else NaN)"
| "Math_log1p NaN = NaN"
| "Math_log1p PInf = PInf"
| "Math_log1p NInf = NaN"

text \<open>\<open>x || y\<close> on numbers: \<open>y\<close> when \<open>x\<close> is falsy, that is \<open>0\<close> or \<open>NaN\<close>.\<close>

definition js_or :: "jsnum \<Rightarrow> jsnum \<Rightarrow> jsnum" where
  "js_or x y = (if x = NaN \<or> x = Num 0 then y else x)"

subsection \<open>Rounding to binary64\<close>

text \<open>
  Every arithmetic operation of the language rounds its exact result to the nearest
  double, a tie going to the double with an even significand. \<open>rne\<close> rounds a real to
  the nearest integer, a tie to the even one.
\<close>

definition rne :: "real \<Rightarrow> int" where
  "rne r =
     (let f = \<lfloor>r\<rfloor>; d = r - of_int f
      in if d < 1 / 2 then f else if 1 / 2 < d then f + 1
         else if even f then f else f + 1)"

text \<open>
  The exponent \<open>e\<close> with \<open>2^e \<le> |x| < 2^(e+1)\<close>, not below \<open>-1022\<close>: the doubles around \<open>x\<close>
  are the multiples of \<open>2^(e - 52)\<close> (53 significant bits; below \<open>2^-1022\<close> the subnormal
  numbers keep the spacing \<open>2^-1074\<close>).
\<close>

definition exponent64 :: "real \<Rightarrow> int" where
  "exponent64 x = max \<lfloor>log 2 \<bar>x\<bar>\<rfloor> (- 1022)"

definition round64 :: "real \<Rightarrow> real" where
  "round64 x =
     (if x = 0 then 0
      else (let q = 2 powi (exponent64 x - 52) in q * of_int (rne (x / q))))"

text \<open>
  The largest finite double is \<open>(2^53 - 1) * 2^971\<close>; a result that rounds beyond it is an
  infinity.
\<close>

definition max_double :: real where
  "max_double = (2 ^ 53 - 1) * 2 ^ 971"

fun js_round :: "jsnum \<Rightarrow> jsnum" where
  "js_round (Num a) =
     (let r = round64 a
      in if max_double < r then PInf else if r < - max_double then NInf else Num r)"
| "js_round NaN = NaN"
| "js_round PInf = PInf"
| "js_round NInf = NInf"

subsection \<open>Mean and standard deviation\<close>

text \<open>
  \<open>arr.filter(v => Number.isFinite(v))\<close>: \<open>Number.isFinite\<close> is false on \<open>null\<close>,
  \<open>NaN\<close> and the infinities, so what is kept is a list of finite numbers.
\<close>

fun finite_vals :: "jsnum option list \<Rightarrow> real list" where
  "finite_vals [] = []"
| "finite_vals (Some (Num a) # vs) = a # finite_vals vs"
| "finite_vals (_ # vs) = finite_vals vs"

text \<open>
  \<open>mean\<close>: \<open>NaN\<close> on no finite value, else
  \<open>xs.reduce((a, b) => a + b, 0) / xs.length\<close>.
\<close>

definition mean :: "jsnum option list \<Rightarrow> jsnum" where
  "mean arr =
     (let xs = finite_vals arr
      in if length xs = 0 then NaN
         else Num (foldl (\<lambda>a b. a + b) 0 xs / real (length xs)))"

text \<open>
  \<open>std\<close>: \<open>NaN\<close> on fewer than two finite values, else the square root of the sum of
  squared deviations from \<open>mean(xs)\<close> divided by \<open>xs.length - 1\<close>.
\<close>

definition std :: "jsnum option list \<Rightarrow> jsnum" where
  "std arr =
     (let xs = finite_vals arr
      in if length xs < 2 then NaN
         else (case mean (map (\<lambda>x. Some (Num x)) xs) of
                 Num m \<Rightarrow>
                   (let v = foldl (\<lambda>acc x. acc + (x - m) * (x - m)) 0 xs
                              / real (length xs - 1)
                    in Num (sqrt v))
               | _ \<Rightarrow> NaN))"

subsection \<open>Tail probability and risk label\<close>

definition sigmoid :: "jsnum \<Rightarrow> jsnum" where
  "sigmoid x = js_div (Num 1) (js_add (Num 1) (Math_exp (js_neg x)))"

definition tailProbFromZ :: "jsnum \<Rightarrow> jsnum \<Rightarrow> jsnum" where
  "tailProbFromZ z k =
     (let t = js_sub (Math_abs z) k
      in Math_max (Num 0) (Math_min (Num 1) (sigmoid (js_mul (Num (22 / 10)) t))))"

record RiskLabel =
  label :: string
  cls :: string

definition riskLabel :: "jsnum \<Rightarrow> RiskLabel" where
  "riskLabel p =
     (if js_ge p (Num (80 / 100)) then \<lparr>label = ''High'', cls = ''danger''\<rparr>
      else if js_ge p (Num (50 / 100)) then \<lparr>label = ''Elevated'', cls = ''warn''\<rparr>
      else \<lparr>label = ''Normal'', cls = ''ok''\<rparr>)"

text \<open>The spec's transform, in its own words, over the reals.\<close>

definition sigmoid_spec :: "real \<Rightarrow> real" where
  "sigmoid_spec x = 1 / (1 + exp (- x))"

definition clamp_spec :: "real \<Rightarrow> real \<Rightarrow> real \<Rightarrow> real" where
  "clamp_spec x lo hi = max lo (min hi x)"

definition tailProb_spec :: "real \<Rightarrow> real \<Rightarrow> real" where
  "tailProb_spec z k = clamp_spec (sigmoid_spec (22 / 10 * (\<bar>z\<bar> - k))) 0 1"

subsection \<open>Series, alignment and features\<close>

text \<open>
  An observation \<open>{date, value}\<close> as the API returns it: the date is a string, used as a
  key as it stands; the value is a number or \<open>null\<close>.
\<close>

record Observation =
  o_date :: string
  o_value :: "jsnum option"

text \<open>A row \<open>{date, a, b}\<close> of \<open>alignByDate\<close>.\<close>

record AlignedRow =
  r_date :: string
  r_a :: "jsnum option"
  r_b :: "jsnum option"

text \<open>
  \<open>new Map(entries)\<close>: the entries are set in order, so a later entry of the same key
  replaces an earlier one. \<open>m.has(k)\<close> is \<open>m k \<noteq> None\<close>, \<open>m.get(k)\<close> the value found.
\<close>

definition js_Map :: "('k \<times> 'v) list \<Rightarrow> ('k \<rightharpoonup> 'v)" where
  "js_Map entries = foldl (\<lambda>m (k, v). m(k \<mapsto> v)) Map.empty entries"

text \<open>\<open>alignByDate\<close>: the loop over \<open>seriesA\<close> pushes a row for each date that \<open>mapB\<close> has.\<close>

definition alignByDate :: "Observation list \<Rightarrow> Observation list \<Rightarrow> AlignedRow list" where
  "alignByDate seriesA seriesB =
     (let mapB = js_Map (map (\<lambda>ob. (o_date ob, o_value ob)) seriesB)
      in foldl (\<lambda>out a.
                  (case mapB (o_date a) of
                     Some v \<Rightarrow> out @ [\<lparr>r_date = o_date a, r_a = o_value a, r_b = v\<rparr>]
                   | None \<Rightarrow> out))
           [] seriesA)"

text \<open>\<open>xs.map((x, i) => f(x, i))\<close>.\<close>

definition map_indexed :: "('a \<Rightarrow> nat \<Rightarrow> 'b) \<Rightarrow> 'a list \<Rightarrow> 'b list" where
  "map_indexed f xs = map (\<lambda>i. f (xs ! i) i) [0..<length xs]"

text \<open>
  The head of \<open>renderCorePanels\<close>, from the three fetched observation lists to the rows
  given to the model. \<open>spread\<close>: the aligned SOFR and EFFR values, subtracted.
\<close>

definition spread :: "Observation list \<Rightarrow> Observation list \<Rightarrow> Observation list" where
  "spread sofrObs effrObs =
     map (\<lambda>row. \<lparr>o_date = r_date row,
                   o_value = Some (js_sub (toNumber (r_a row)) (toNumber (r_b row)))\<rparr>)
       (alignByDate sofrObs effrObs)"

definition repoLog :: "Observation list \<Rightarrow> Observation list" where
  "repoLog repoObs =
     map (\<lambda>ob. \<lparr>o_date = o_date ob, o_value = Some (Math_log1p (toNumber (o_value ob)))\<rparr>)
       repoObs"

text \<open>
  \<open>prev === null ? null : (o.value - prev)\<close>, with \<open>prev\<close> the value one step (five steps)
  back, or \<open>null\<close> when the index is too small.
\<close>

definition repoDelta1 :: "Observation list \<Rightarrow> Observation list" where
  "repoDelta1 repoObs =
     map_indexed (\<lambda>ob i.
        (let prev = (if 1 \<le> i then o_value (repoObs ! (i - 1)) else None)
         in \<lparr>o_date = o_date ob,
             o_value = (case prev of
                          None \<Rightarrow> None
                        | Some pv \<Rightarrow> Some (js_sub (toNumber (o_value ob)) pv))\<rparr>))
       repoObs"

definition repoLogChg5 :: "Observation list \<Rightarrow> Observation list" where
  "repoLogChg5 repoObs =
     map_indexed (\<lambda>ob i.
        (let prev = (if 5 \<le> i then o_value (repoLog repoObs ! (i - 5)) else None)
         in \<lparr>o_date = o_date ob,
             o_value = (case prev of
                          None \<Rightarrow> None
                        | Some pv \<Rightarrow> Some (js_sub (toNumber (o_value ob)) pv))\<rparr>))
       (repoLog repoObs)"

text \<open>A row \<open>{date, spread, repoVal}\<close> of \<open>aligned\<close>.\<close>

record SpreadRepoRow =
  sr_date :: string
  sr_spread :: "jsnum option"
  sr_repoVal :: "jsnum option"

definition aligned :: "Observation list \<Rightarrow> Observation list \<Rightarrow> Observation list
    \<Rightarrow> SpreadRepoRow list" where
  "aligned sofrObs effrObs repoObs =
     map (\<lambda>row. \<lparr>sr_date = r_date row, sr_spread = r_a row, sr_repoVal = r_b row\<rparr>)
       (alignByDate (spread sofrObs effrObs) repoObs)"

text \<open>
  A feature row \<open>{date, spread, repoVal, repoDelta1, repoLogChg5}\<close>, the input of the
  model.
\<close>

record FeatureRow =
  f_date :: string
  f_spread :: "jsnum option"
  f_repoVal :: "jsnum option"
  f_repoDelta1 :: "jsnum option"
  f_repoLogChg5 :: "jsnum option"

text \<open>The map of the non-null entries of a feature series, by date.\<close>

definition nonNullMap :: "Observation list \<Rightarrow> (string \<rightharpoonup> jsnum option)" where
  "nonNullMap series =
     js_Map (map (\<lambda>x. (o_date x, o_value x)) (filter (\<lambda>x. o_value x \<noteq> None) series))"

text \<open>\<open>m.has(d) ? m.get(d) : null\<close>.\<close>

definition getOrNull :: "(string \<rightharpoonup> jsnum option) \<Rightarrow> string \<Rightarrow> jsnum option" where
  "getOrNull m d = (case m d of Some v \<Rightarrow> v | None \<Rightarrow> None)"

definition alignedForModel :: "Observation list \<Rightarrow> Observation list \<Rightarrow> Observation list
    \<Rightarrow> FeatureRow list" where
  "alignedForModel sofrObs effrObs repoObs =
     (let mapRepoLogChg5 = nonNullMap (repoLogChg5 repoObs);
          mapRepoDelta1 = nonNullMap (repoDelta1 repoObs)
      in map (\<lambda>row. \<lparr>f_date = sr_date row,
                       f_spread = sr_spread row,
                       f_repoVal = sr_repoVal row,
                       f_repoDelta1 = getOrNull mapRepoDelta1 (sr_date row),
                       f_repoLogChg5 = getOrNull mapRepoLogChg5 (sr_date row)\<rparr>)
           (aligned sofrObs effrObs repoObs))"

subsection \<open>The model: \<open>computeBeginnerPlus\<close>\<close>

record ScorePoint =
  s_date :: string
  pStress :: jsnum
  pSpread :: jsnum
  pRepo :: jsnum
  zSpread :: jsnum

text \<open>
  \<open>1 - (1 - pSpread) * (1 - pRepo)\<close>, the right-hand side of \<open>const pStress\<close>: two
  subtractions from 1, their product and a last subtraction from 1, each rounded.
\<close>

definition combineStress :: "jsnum \<Rightarrow> jsnum \<Rightarrow> jsnum" where
  "combineStress p_spread p_repo =
     js_round (js_sub (Num 1)
       (js_round (js_mul (js_round (js_sub (Num 1) p_spread))
                         (js_round (js_sub (Num 1) p_repo)))))"

text \<open>The same four rounded operations on two reals.\<close>

definition combine64 :: "real \<Rightarrow> real \<Rightarrow> real" where
  "combine64 a b = round64 (1 - round64 (round64 (1 - a) * round64 (1 - b)))"

text \<open>
  The function mapped over the rows, with the four statistics and \<open>k\<close> of its closure as
  parameters. A \<open>null\<close> spread is converted by the subtraction; the repo feature is
  tested against \<open>null\<close> first.
\<close>

definition scorePoint :: "jsnum \<Rightarrow> jsnum \<Rightarrow> jsnum \<Rightarrow> jsnum \<Rightarrow> jsnum \<Rightarrow> FeatureRow
    \<Rightarrow> ScorePoint" where
  "scorePoint mS sS mR sR k row =
     (let z_spread = js_div (js_sub (toNumber (f_spread row)) mS) sS;
          p_spread = tailProbFromZ z_spread k;
          p_repo = (case f_repoLogChg5 row of
                      None \<Rightarrow> Num 0
                    | Some v \<Rightarrow> (let zRepo = js_div (js_sub v mR) sR
                                in tailProbFromZ zRepo k));
          p_stress = combineStress p_spread p_repo
      in \<lparr>s_date = f_date row, pStress = p_stress, pSpread = p_spread, pRepo = p_repo,
          zSpread = z_spread\<rparr>)"

record BeginnerPlus =
  points :: "ScorePoint list"
  latest :: "ScorePoint option"

text \<open>The constant \<open>1e-9\<close> that stands in for a zero or undefined standard deviation.\<close>

definition eps :: real where
  "eps = 1 / 10 ^ 9"

definition computeBeginnerPlus :: "FeatureRow list \<Rightarrow> jsnum \<Rightarrow> BeginnerPlus" where
  "computeBeginnerPlus alignedSpreadRepo k =
     (let spreadVals = map f_spread alignedSpreadRepo;
          repoVals = filter (\<lambda>v. v \<noteq> None) (map f_repoLogChg5 alignedSpreadRepo);
          mS = mean spreadVals;
          sS = js_or (std spreadVals) (Num eps);
          mR = mean repoVals;
          sR = js_or (std repoVals) (Num eps);
          pts = map (scorePoint mS sS mR sR k) alignedSpreadRepo;
          lst = (if length pts \<noteq> 0 then Some (pts ! (length pts - 1)) else None)
      in \<lparr>points = pts, latest = lst\<rparr>)"

subsection \<open>Example inputs\<close>

text \<open>A feature row whose spread is \<open>null\<close>.\<close>

definition null_spread_row :: FeatureRow where
  "null_spread_row =
     \<lparr>f_date = ''2024-01-02'', f_spread = None, f_repoVal = Some (Num 5),
      f_repoDelta1 = None, f_repoLogChg5 = None\<rparr>"

text \<open>A series that lists one date twice, and a series with that date once.\<close>

definition dupA :: "Observation list" where
  "dupA = [\<lparr>o_date = ''2024-01-02'', o_value = Some (Num 1)\<rparr>,
           \<lparr>o_date = ''2024-01-02'', o_value = Some (Num 2)\<rparr>]"

definition oneB :: "Observation list" where
  "oneB = [\<lparr>o_date = ''2024-01-02'', o_value = Some (Num 3)\<rparr>]"

text \<open>Two series with distinct dates in the first; the second repeats a date.\<close>

definition joinA :: "Observation list" where
  "joinA = [\<lparr>o_date = ''D1'', o_value = Some (Num 1)\<rparr>,
            \<lparr>o_date = ''D2'', o_value = Some (Num 2)\<rparr>,
            \<lparr>o_date = ''D3'', o_value = None\<rparr>]"

definition joinB :: "Observation list" where
  "joinB = [\<lparr>o_date = ''D3'', o_value = Some (Num 30)\<rparr>,
            \<lparr>o_date = ''D4'', o_value = Some (Num 40)\<rparr>,
            \<lparr>o_date = ''D2'', o_value = Some (Num 20)\<rparr>,
            \<lparr>o_date = ''D2'', o_value = Some (Num 21)\<rparr>]"

text \<open>The rates of the spec's end-to-end scenario, with one unmatched date each.\<close>

definition sofrEx :: "Observation list" where
  "sofrEx = [\<lparr>o_date = ''D1'', o_value = Some (Num (531 / 100))\<rparr>,
             \<lparr>o_date = ''D2'', o_value = Some (Num (532 / 100))\<rparr>,
             \<lparr>o_date = ''D3'', o_value = Some (Num (530 / 100))\<rparr>,
             \<lparr>o_date = ''D4'', o_value = Some (Num (530 / 100))\<rparr>]"

definition effrEx :: "Observation list" where
  "effrEx = [\<lparr>o_date = ''D1'', o_value = Some (Num (533 / 100))\<rparr>,
             \<lparr>o_date = ''D2'', o_value = Some (Num (531 / 100))\<rparr>,
             \<lparr>o_date = ''D3'', o_value = Some (Num (529 / 100))\<rparr>,
             \<lparr>o_date = ''D5'', o_value = Some (Num (529 / 100))\<rparr>]"

text \<open>Repo volume series of four and of six observations.\<close>

definition repo4 :: "Observation list" where
  "repo4 = [\<lparr>o_date = ''D1'', o_value = Some (Num 10)\<rparr>,
            \<lparr>o_date = ''D2'', o_value = Some (Num 0)\<rparr>,
            \<lparr>o_date = ''D3'', o_value = Some (Num 12)\<rparr>,
            \<lparr>o_date = ''D4'', o_value = Some (Num 11)\<rparr>]"

definition repo6 :: "Observation list" where
  "repo6 = [\<lparr>o_date = ''D1'', o_value = Some (Num 0)\<rparr>,
            \<lparr>o_date = ''D2'', o_value = Some (Num 4)\<rparr>,
            \<lparr>o_date = ''D3'', o_value = Some (Num 7)\<rparr>,
            \<lparr>o_date = ''D4'', o_value = Some (Num 7)\<rparr>,
            \<lparr>o_date = ''D5'', o_value = Some (Num 2)\<rparr>,
            \<lparr>o_date = ''D6'', o_value = Some (Num 3)\<rparr>]"

text \<open>A volume series whose first value is \<open>null\<close>.\<close>

definition nullPrev :: "Observation list" where
  "nullPrev = [\<lparr>o_date = ''D1'', o_value = None\<rparr>,
               \<lparr>o_date = ''D2'', o_value = Some (Num 5)\<rparr>]"

text \<open>Feature rows with one finite spread and one finite repo feature.\<close>

definition sparseRows :: "FeatureRow list" where
  "sparseRows =
     [\<lparr>f_date = ''D1'', f_spread = Some (Num (1 / 100)), f_repoVal = Some (Num 5),
       f_repoDelta1 = None, f_repoLogChg5 = Some (Num (3 / 10))\<rparr>,
      \<lparr>f_date = ''D2'', f_spread = Some NaN, f_repoVal = Some (Num 6),
       f_repoDelta1 = Some (Num 1), f_repoLogChg5 = None\<rparr>]"

text \<open>The double nearest to 0.1, \<open>0x1.999999999999ap-4\<close>.\<close>

definition d01 :: real where
  "d01 = 3602879701896397 / 2 ^ 55"

text \<open>Feature rows with one finite spread and a \<open>null\<close> spread beside it.\<close>

definition guardRows :: "FeatureRow list" where
  "guardRows =
     [\<lparr>f_date = ''D1'', f_spread = Some (Num (1 / 2)), f_repoVal = Some (Num 5),
       f_repoDelta1 = None, f_repoLogChg5 = Some (Num (3 / 10))\<rparr>,
      \<lparr>f_date = ''D2'', f_spread = None, f_repoVal = Some (Num 6),
       f_repoDelta1 = Some (Num 1), f_repoLogChg5 = None\<rparr>]"

text \<open>Feature rows without any finite spread.\<close>

definition nullSpreadRows :: "FeatureRow list" where
  "nullSpreadRows =
     [\<lparr>f_date = ''D1'', f_spread = None, f_repoVal = Some (Num 5),
       f_repoDelta1 = None, f_repoLogChg5 = None\<rparr>,
      \<lparr>f_date = ''D2'', f_spread = None, f_repoVal = Some (Num 6),
       f_repoDelta1 = Some (Num 1), f_repoLogChg5 = None\<rparr>]"

section \<open>Properties\<close>

subsection \<open>The tail-probability transform\<close>

lemma sigmoid_spec_pos: "0 < sigmoid_spec x"
  by (simp add: sigmoid_spec_def add_pos_pos)

lemma sigmoid_spec_lt1: "sigmoid_spec x < 1"
proof -
  have "0 < 1 + exp (- x)" by (simp add: add_pos_pos)
  then show ?thesis
    unfolding sigmoid_spec_def by (simp add: pos_divide_less_eq)
qed

lemma sigmoid_Num: "sigmoid (Num x) = Num (sigmoid_spec x)"
proof -
  have "1 + exp (- x) \<noteq> 0"
    using exp_gt_zero [of "- x"] by linarith
  then show ?thesis
    by (simp add: sigmoid_def sigmoid_spec_def)
qed

lemma sigmoid_spec_mono: "x \<le> y \<Longrightarrow> sigmoid_spec x \<le> sigmoid_spec y"
  unfolding sigmoid_spec_def
  by (intro divide_left_mono) (auto simp: add_pos_pos)

text \<open>The sigmoid lies strictly between 0 and 1, so the clamp leaves it as it is.\<close>

lemma tailProb_spec_eq: "tailProb_spec z k = sigmoid_spec (22 / 10 * (\<bar>z\<bar> - k))"
  using sigmoid_spec_pos [of "22 / 10 * (\<bar>z\<bar> - k)"]
    sigmoid_spec_lt1 [of "22 / 10 * (\<bar>z\<bar> - k)"]
  by (simp add: tailProb_spec_def clamp_spec_def)

lemma tailProbFromZ_Num: "tailProbFromZ (Num z) (Num k) = Num (tailProb_spec z k)"
  using sigmoid_spec_pos [of "22 / 10 * (\<bar>z\<bar> - k)"]
    sigmoid_spec_lt1 [of "22 / 10 * (\<bar>z\<bar> - k)"]
  by (simp add: tailProbFromZ_def tailProb_spec_eq js_sub_def sigmoid_Num
      Math_min_def Math_max_def)

lemma tailProbFromZ_inf:
  "tailProbFromZ PInf (Num k) = Num 1" "tailProbFromZ NInf (Num k) = Num 1"
  by (simp_all add: tailProbFromZ_def js_sub_def sigmoid_def Math_min_def Math_max_def
      inf_times_def)

lemma tailProb_spec_bounds: "0 < tailProb_spec z k" "tailProb_spec z k < 1"
  unfolding tailProb_spec_eq by (rule sigmoid_spec_pos, rule sigmoid_spec_lt1)

text \<open>
  C4. For finite \<open>z\<close> and \<open>k\<close>, \<open>tailProbFromZ\<close> returns
  \<open>clamp(sigmoid(2.2 * (|z| - k)), 0, 1)\<close> with \<open>sigmoid(x) = 1 / (1 + exp(-x))\<close>, and at
  \<open>z = 0\<close> it returns \<open>sigmoid(-2.2 k)\<close>.
\<close>

theorem tailProbFromZ_formula:
  "tailProbFromZ (Num z) (Num k)
     = Num (clamp_spec (sigmoid_spec (22 / 10 * (\<bar>z\<bar> - k))) 0 1)
   \<and> sigmoid_spec x = 1 / (1 + exp (- x))
   \<and> tailProbFromZ (Num 0) (Num k) = Num (sigmoid_spec (- (22 / 10) * k))"
  using tailProbFromZ_Num [of z k] tailProbFromZ_Num [of 0 k] tailProb_spec_eq [of 0 k]
  by (simp add: tailProb_spec_def) (simp add: sigmoid_spec_def)

lemma sigmoid_spec_upper: "sigmoid_spec x \<le> exp x"
proof -
  have "sigmoid_spec x = exp x / (exp x + 1)"
    unfolding sigmoid_spec_def by (simp add: exp_minus field_simps)
  also have "\<dots> \<le> exp x / 1"
    by (intro divide_left_mono) (auto simp: add_pos_pos)
  finally show ?thesis by simp
qed

lemma sigmoid_spec_lower: "1 - exp (- x) \<le> sigmoid_spec x"
proof -
  have nz: "1 + exp (- x) \<noteq> 0"
    using exp_gt_zero [of "- x"] by linarith
  have "1 - sigmoid_spec x = exp (- x) / (1 + exp (- x))"
    unfolding sigmoid_spec_def using nz by (simp add: field_simps)
  also have "\<dots> \<le> exp (- x) / 1"
    by (intro divide_left_mono) (auto simp: add_pos_pos)
  finally show ?thesis by simp
qed

lemma tail_far_above:
  assumes "0 < \<epsilon>"
  shows "\<exists>M. \<forall>z k. M \<le> \<bar>z\<bar> - k \<longrightarrow> 1 - \<epsilon> \<le> tailProb_spec z k"
proof (intro exI allI impI)
  fix z k :: real
  let ?x = "22 / 10 * (\<bar>z\<bar> - k)"
  assume "max 0 (- ln \<epsilon>) \<le> \<bar>z\<bar> - k"
  then have "0 \<le> \<bar>z\<bar> - k" "- ln \<epsilon> \<le> \<bar>z\<bar> - k" by simp_all
  then have "- ?x \<le> ln \<epsilon>" by argo
  then have "exp (- ?x) \<le> exp (ln \<epsilon>)" by (simp only: exp_le_cancel_iff)
  then have "exp (- ?x) \<le> \<epsilon>" using assms by simp
  then show "1 - \<epsilon> \<le> tailProb_spec z k"
    using sigmoid_spec_lower [of ?x] by (simp only: tailProb_spec_eq)
qed

lemma tail_far_below:
  assumes "0 < \<epsilon>"
  shows "\<exists>M. \<forall>z k. M \<le> k - \<bar>z\<bar> \<longrightarrow> tailProb_spec z k \<le> \<epsilon>"
proof (intro exI allI impI)
  fix z k :: real
  let ?x = "22 / 10 * (\<bar>z\<bar> - k)"
  assume "max 0 (- ln \<epsilon>) \<le> k - \<bar>z\<bar>"
  then have "0 \<le> k - \<bar>z\<bar>" "- ln \<epsilon> \<le> k - \<bar>z\<bar>" by simp_all
  then have "?x \<le> ln \<epsilon>" by argo
  then have "exp ?x \<le> exp (ln \<epsilon>)" by (simp only: exp_le_cancel_iff)
  then have "exp ?x \<le> \<epsilon>" using assms by simp
  then show "tailProb_spec z k \<le> \<epsilon>"
    using sigmoid_spec_upper [of ?x] by (simp only: tailProb_spec_eq)
qed

lemma tailProb_spec_mono:
  "\<bar>z1\<bar> \<le> \<bar>z2\<bar> \<Longrightarrow> tailProb_spec z1 k \<le> tailProb_spec z2 k"
  unfolding tailProb_spec_eq by (rule sigmoid_spec_mono) simp

lemma tailProbFromZ_mono_js:
  assumes "js_ge (Math_abs z2) (Math_abs z1)"
  shows "js_ge (tailProbFromZ z2 (Num k)) (tailProbFromZ z1 (Num k))"
  using assms tailProb_spec_bounds(2) [of _ k]
  by (cases z1; cases z2)
    (simp_all add: tailProbFromZ_Num tailProbFromZ_inf tailProb_spec_mono less_imp_le)

text \<open>
  C5. For a fixed finite \<open>k\<close>, \<open>|z1| \<le> |z2|\<close> gives
  \<open>tailProbFromZ z1 k \<le> tailProbFromZ z2 k\<close> (for finite and for infinite z-scores; the
  comparisons are the language's, which hold of no \<open>NaN\<close>). The probability comes within
  any \<open>\<epsilon> > 0\<close> of 1 once \<open>|z|\<close> exceeds \<open>k\<close> by enough, and within \<open>\<epsilon>\<close> of 0 once \<open>|z|\<close> is
  below \<open>k\<close> by enough.
\<close>

theorem tailProbFromZ_monotone_limits:
  "(js_ge (Math_abs z2) (Math_abs z1) \<longrightarrow>
      js_ge (tailProbFromZ z2 (Num k)) (tailProbFromZ z1 (Num k)))
   \<and> (0 < \<epsilon> \<longrightarrow> (\<exists>M. \<forall>z k. M \<le> \<bar>z\<bar> - k \<longrightarrow>
          js_ge (tailProbFromZ (Num z) (Num k)) (Num (1 - \<epsilon>))))
   \<and> (0 < \<epsilon> \<longrightarrow> (\<exists>M. \<forall>z k. M \<le> k - \<bar>z\<bar> \<longrightarrow>
          js_ge (Num \<epsilon>) (tailProbFromZ (Num z) (Num k))))"
  using tailProbFromZ_mono_js [of z2 z1 k] tail_far_above [of \<epsilon>] tail_far_below [of \<epsilon>]
  by (simp add: tailProbFromZ_Num)

theorem tailProbFromZ_monotone_limits_witness:
  "js_ge (Math_abs (Num 3)) (Math_abs (Num (- 1)))
   \<and> js_ge (tailProbFromZ (Num 3) (Num (25 / 10))) (tailProbFromZ (Num (- 1)) (Num (25 / 10)))
   \<and> (0 :: real) < 1 / 100
   \<and> (\<exists>M. \<forall>z k. M \<le> \<bar>z\<bar> - k \<longrightarrow>
          js_ge (tailProbFromZ (Num z) (Num k)) (Num (1 - 1 / 100)))
   \<and> (\<exists>M. \<forall>z k. M \<le> k - \<bar>z\<bar> \<longrightarrow>
          js_ge (Num (1 / 100)) (tailProbFromZ (Num z) (Num k)))"
  using tailProbFromZ_monotone_limits [of "Num 3" "Num (- 1)" "25 / 10" "1 / 100"]
  by simp

subsection \<open>The risk classifier\<close>

text \<open>
  C9. For a finite \<open>p\<close>, \<open>riskLabel\<close> returns High when \<open>p \<ge> 0.80\<close>, Elevated when
  \<open>0.50 \<le> p < 0.80\<close> and Normal when \<open>p < 0.50\<close>; the four boundary values of the spec
  classify as High, Elevated, Elevated and Normal.
\<close>

theorem riskLabel_bands:
  "(80 / 100 \<le> p \<longrightarrow> label (riskLabel (Num p)) = ''High'')
   \<and> (50 / 100 \<le> p \<and> p < 80 / 100 \<longrightarrow> label (riskLabel (Num p)) = ''Elevated'')
   \<and> (p < 50 / 100 \<longrightarrow> label (riskLabel (Num p)) = ''Normal'')
   \<and> label (riskLabel (Num (80 / 100))) = ''High''
   \<and> label (riskLabel (Num (7999 / 10000))) = ''Elevated''
   \<and> label (riskLabel (Num (50 / 100))) = ''Elevated''
   \<and> label (riskLabel (Num (4999 / 10000))) = ''Normal''"
  by (simp add: riskLabel_def)

theorem riskLabel_bands_witness:
  "label (riskLabel (Num 1)) = ''High''
   \<and> label (riskLabel (Num (6 / 10))) = ''Elevated''
   \<and> label (riskLabel (Num 0)) = ''Normal''"
  using riskLabel_bands [of 1] riskLabel_bands [of "6 / 10"] riskLabel_bands [of 0]
  by simp

subsection \<open>The model on a list of rows\<close>

lemma points_computeBeginnerPlus:
  "points (computeBeginnerPlus rows k) =
     map (scorePoint (mean (map f_spread rows))
            (js_or (std (map f_spread rows)) (Num eps))
            (mean (filter (\<lambda>v. v \<noteq> None) (map f_repoLogChg5 rows)))
            (js_or (std (filter (\<lambda>v. v \<noteq> None) (map f_repoLogChg5 rows))) (Num eps))
            k) rows"
  by (simp add: computeBeginnerPlus_def Let_def)

lemma length_points: "length (points (computeBeginnerPlus rows k)) = length rows"
  by (simp add: points_computeBeginnerPlus)

lemma latest_computeBeginnerPlus:
  "latest (computeBeginnerPlus rows k) =
     (if rows = [] then None else Some (last (points (computeBeginnerPlus rows k))))"
  by (simp add: computeBeginnerPlus_def Let_def last_conv_nth)

lemma s_date_scorePoint: "s_date (scorePoint mS sS mR sR k row) = f_date row"
  by (simp add: scorePoint_def Let_def)

lemma pRepo_scorePoint_null:
  "f_repoLogChg5 row = None \<Longrightarrow> pRepo (scorePoint mS sS mR sR k row) = Num 0"
  by (simp add: scorePoint_def Let_def)

lemma pStress_scorePoint:
  "pStress (scorePoint mS sS mR sR k row) =
     combineStress (pSpread (scorePoint mS sS mR sR k row))
       (pRepo (scorePoint mS sS mR sR k row))"
  by (simp add: scorePoint_def Let_def)

text \<open>
  C10. On the empty list of rows \<open>computeBeginnerPlus\<close> returns no points and a \<open>null\<close>
  \<open>latest\<close>; \<open>latest\<close> is \<open>null\<close> on no other input.
\<close>

theorem computeBeginnerPlus_empty:
  "computeBeginnerPlus [] k = \<lparr>points = [], latest = None\<rparr>
   \<and> (latest (computeBeginnerPlus rows k) = None \<longleftrightarrow> rows = [])"
  by (simp add: latest_computeBeginnerPlus) (simp add: computeBeginnerPlus_def)

subsection \<open>Alignment\<close>

lemma js_Map_foldl:
  "foldl (\<lambda>m (k, v). m(k \<mapsto> v)) m0 entries = m0 ++ map_of (rev entries)"
  by (induction entries arbitrary: m0)
    (auto simp: map_add_upd_left fun_eq_iff map_add_def split: option.splits)

lemma js_Map_eq: "js_Map entries = map_of (rev entries)"
  by (simp add: js_Map_def js_Map_foldl)

lemma dom_js_Map: "dom (js_Map entries) = fst ` set entries"
  by (simp add: js_Map_eq dom_map_of_conv_image_fst)

lemma js_Map_SomeD: "js_Map entries k = Some v \<Longrightarrow> (k, v) \<in> set entries"
  by (auto simp: js_Map_eq dest: map_of_SomeD)

lemma mapB_has_iff:
  "js_Map (map (\<lambda>ob. (o_date ob, o_value ob)) B) d \<noteq> None \<longleftrightarrow> d \<in> o_date ` set B"
proof -
  have "dom (js_Map (map (\<lambda>ob. (o_date ob, o_value ob)) B)) = o_date ` set B"
    by (simp add: dom_js_Map image_comp comp_def)
  then show ?thesis by (metis domIff)
qed

text \<open>The loop that pushes rows is a filter followed by a map.\<close>

lemma push_loop:
  "foldl (\<lambda>out a. (case m (o_date a) of
                     Some v \<Rightarrow> out @ [\<lparr>r_date = o_date a, r_a = o_value a, r_b = v\<rparr>]
                   | None \<Rightarrow> out)) acc A
   = acc @ map (\<lambda>a. \<lparr>r_date = o_date a, r_a = o_value a, r_b = the (m (o_date a))\<rparr>)
             (filter (\<lambda>a. m (o_date a) \<noteq> None) A)"
  by (induction A arbitrary: acc) (auto split: option.splits)

lemma alignByDate_eq:
  "alignByDate A B =
     map (\<lambda>a. \<lparr>r_date = o_date a, r_a = o_value a,
                r_b = the (js_Map (map (\<lambda>ob. (o_date ob, o_value ob)) B) (o_date a))\<rparr>)
       (filter (\<lambda>a. o_date a \<in> o_date ` set B) A)"
proof -
  let ?m = "js_Map (map (\<lambda>ob. (o_date ob, o_value ob)) B)"
  have "filter (\<lambda>a. ?m (o_date a) \<noteq> None) A = filter (\<lambda>a. o_date a \<in> o_date ` set B) A"
    by (simp only: mapB_has_iff)
  then show ?thesis
    by (simp only: alignByDate_def Let_def push_loop append_Nil)
qed

lemma dates_alignByDate:
  "map r_date (alignByDate A B) = filter (\<lambda>d. d \<in> o_date ` set B) (map o_date A)"
  by (simp add: alignByDate_eq filter_map comp_def)

lemma rows_of_A_alignByDate:
  "map (\<lambda>row. (r_date row, r_a row)) (alignByDate A B)
     = map (\<lambda>a. (o_date a, o_value a)) (filter (\<lambda>a. o_date a \<in> o_date ` set B) A)"
  by (simp add: alignByDate_eq comp_def)

lemma length_alignByDate_le: "length (alignByDate A B) \<le> length A"
  by (simp add: alignByDate_eq)

lemma length_alignByDate_distinct:
  assumes "distinct (map o_date A)"
  shows "length (alignByDate A B) \<le> length B"
proof -
  let ?ds = "map r_date (alignByDate A B)"
  have d: "distinct ?ds"
    unfolding dates_alignByDate using assms by (rule distinct_filter)
  have "set ?ds \<subseteq> o_date ` set B"
    unfolding dates_alignByDate by auto
  then have "card (set ?ds) \<le> card (o_date ` set B)"
    by (intro card_mono) auto
  also have "\<dots> \<le> card (set B)" by (rule card_image_le) simp
  also have "\<dots> \<le> length B" by (rule card_length)
  finally show ?thesis using distinct_card [OF d] by simp
qed

lemma rows_alignByDate:
  assumes "row \<in> set (alignByDate A B)"
  shows "(\<exists>a\<in>set A. o_date a = r_date row \<and> o_value a = r_a row)
       \<and> (\<exists>b\<in>set B. o_date b = r_date row \<and> o_value b = r_b row)"
proof -
  let ?m = "js_Map (map (\<lambda>ob. (o_date ob, o_value ob)) B)"
  from assms obtain a where a: "a \<in> set A" "o_date a \<in> o_date ` set B"
    and row: "row = \<lparr>r_date = o_date a, r_a = o_value a, r_b = the (?m (o_date a))\<rparr>"
    by (auto simp: alignByDate_eq)
  from a(2) obtain v where v: "?m (o_date a) = Some v"
    using mapB_has_iff [of B "o_date a"] by auto
  from js_Map_SomeD [OF v] obtain b where "b \<in> set B" "o_date b = o_date a" "o_value b = v"
    by auto
  with a(1) row v show ?thesis by auto
qed

lemma alignByDate_join_example:
  "alignByDate joinA joinB =
     [\<lparr>r_date = ''D2'', r_a = Some (Num 2), r_b = Some (Num 21)\<rparr>,
      \<lparr>r_date = ''D3'', r_a = None, r_b = Some (Num 30)\<rparr>]"
  by (simp add: alignByDate_def js_Map_def joinA_def joinB_def)

text \<open>
  C3, as the spec states it, fails where the first series lists a date twice: each of its
  two observations is matched, so two rows come out, more than the one observation of
  the second series.
\<close>

theorem alignByDate_duplicate_counterexample:
  "alignByDate dupA oneB =
     [\<lparr>r_date = ''2024-01-02'', r_a = Some (Num 1), r_b = Some (Num 3)\<rparr>,
      \<lparr>r_date = ''2024-01-02'', r_a = Some (Num 2), r_b = Some (Num 3)\<rparr>]
   \<and> \<not> length (alignByDate dupA oneB) \<le> min (length dupA) (length oneB)"
  by (simp add: alignByDate_def js_Map_def dupA_def oneB_def)

text \<open>
  C3, amended. \<open>alignByDate A B\<close> has one row for each observation of \<open>A\<close> whose date is a
  date of \<open>B\<close>, in the order of \<open>A\<close>, with that observation's date and value; the result
  is no longer than \<open>A\<close>, and no longer than \<open>min(|A|, |B|)\<close> when the dates of \<open>A\<close> are
  pairwise distinct; every row carries the date and value of an observation of \<open>A\<close> and
  the value of an observation of \<open>B\<close> of that date.
\<close>

theorem alignByDate_inner_join:
  "map (\<lambda>row. (r_date row, r_a row)) (alignByDate A B)
     = map (\<lambda>a. (o_date a, o_value a)) (filter (\<lambda>a. o_date a \<in> o_date ` set B) A)
   \<and> map r_date (alignByDate A B) = filter (\<lambda>d. d \<in> o_date ` set B) (map o_date A)
   \<and> length (alignByDate A B) \<le> length A
   \<and> (distinct (map o_date A) \<longrightarrow> length (alignByDate A B) \<le> min (length A) (length B))
   \<and> (\<forall>row\<in>set (alignByDate A B).
         (\<exists>a\<in>set A. o_date a = r_date row \<and> o_value a = r_a row)
         \<and> (\<exists>b\<in>set B. o_date b = r_date row \<and> o_value b = r_b row))"
  using rows_of_A_alignByDate [of A B] dates_alignByDate [of A B]
    length_alignByDate_le [of A B] length_alignByDate_distinct [of A B]
    rows_alignByDate [of _ A B]
  by simp

theorem alignByDate_inner_join_witness:
  "distinct (map o_date joinA)
   \<and> length (alignByDate joinA joinB) \<le> min (length joinA) (length joinB)
   \<and> map r_date (alignByDate joinA joinB) = [''D2'', ''D3'']
   \<and> (\<exists>b\<in>set joinB. o_date b = ''D2'' \<and> o_value b = Some (Num 21))"
proof -
  have d: "distinct (map o_date joinA)" by (simp add: joinA_def)
  have m: "\<lparr>r_date = ''D2'', r_a = Some (Num 2), r_b = Some (Num 21)\<rparr>
      \<in> set (alignByDate joinA joinB)"
    by (simp add: alignByDate_join_example)
  note c3 = alignByDate_inner_join [of joinA joinB]
  from c3 d have a: "length (alignByDate joinA joinB) \<le> min (length joinA) (length joinB)"
    by blast
  from c3 have b: "map r_date (alignByDate joinA joinB) = [''D2'', ''D3'']"
    by (simp add: joinA_def joinB_def)
  from c3 m have c: "\<exists>b\<in>set joinB. o_date b = ''D2'' \<and> o_value b = Some (Num 21)"
    by fastforce
  from d a b c show ?thesis by blast
qed

subsection \<open>The repo features\<close>

lemma length_map_indexed: "length (map_indexed f xs) = length xs"
  by (simp add: map_indexed_def)

lemma nth_map_indexed: "i < length xs \<Longrightarrow> map_indexed f xs ! i = f (xs ! i) i"
  by (simp add: map_indexed_def)

lemma length_repoLog: "length (repoLog obs) = length obs"
  by (simp add: repoLog_def)

lemma nth_repoLog:
  "i < length obs \<Longrightarrow> repoLog obs ! i =
     \<lparr>o_date = o_date (obs ! i), o_value = Some (Math_log1p (toNumber (o_value (obs ! i))))\<rparr>"
  by (simp add: repoLog_def)

lemma length_repoLogChg5: "length (repoLogChg5 obs) = length obs"
  by (simp add: repoLogChg5_def length_map_indexed length_repoLog)

lemma nth_repoDelta1:
  assumes "i < length obs"
  shows "repoDelta1 obs ! i =
     \<lparr>o_date = o_date (obs ! i),
      o_value = (if i = 0 then None
                 else (case o_value (obs ! (i - 1)) of
                         None \<Rightarrow> None
                       | Some pv \<Rightarrow> Some (js_sub (toNumber (o_value (obs ! i))) pv)))\<rparr>"
  using assms by (cases "i = 0") (simp_all add: repoDelta1_def nth_map_indexed Let_def)

lemma nth_repoLogChg5:
  assumes "i < length obs"
  shows "repoLogChg5 obs ! i =
     \<lparr>o_date = o_date (obs ! i),
      o_value = (if i < 5 then None
                 else Some (js_sub (Math_log1p (toNumber (o_value (obs ! i))))
                                   (Math_log1p (toNumber (o_value (obs ! (i - 5)))))))\<rparr>"
  using assms
  by (cases "i < 5")
    (simp_all add: repoLogChg5_def nth_map_indexed Let_def length_repoLog nth_repoLog)

text \<open>
  C6, as the spec states it, fails on a series with a \<open>null\<close> value: the delta after it is
  \<open>null\<close> although its index is not 0, because the code reads a \<open>null\<close> previous value as
  "no previous value".
\<close>

theorem repoDelta1_null_prev_counterexample:
  "(1::nat) < length nullPrev \<and> (1::nat) \<noteq> 0 \<and> o_value (repoDelta1 nullPrev ! 1) = None"
  by (simp add: nullPrev_def repoDelta1_def map_indexed_def)

text \<open>
  C6, amended. At an index \<open>i\<close> of a volume series: the 1-step delta is \<open>null\<close> when
  \<open>i = 0\<close> or the previous value is \<open>null\<close>, and is the number \<open>value[i] - value[i-1]\<close>
  when \<open>i \<ge> 1\<close> and both values are numbers; the 5-step log change is \<open>null\<close> exactly when
  \<open>i < 5\<close>, is \<open>log1p(value[i]) - log1p(value[i-5])\<close> when \<open>i \<ge> 5\<close> and both values are
  numbers, and that is \<open>ln(1 + value[i]) - ln(1 + value[i-5])\<close> when both are finite and
  above -1.
\<close>

theorem repo_features_nulls:
  assumes "i < length obs"
  shows "(i = 0 \<or> o_value (obs ! (i - 1)) = None \<longrightarrow> o_value (repoDelta1 obs ! i) = None)
   \<and> (0 < i \<and> o_value (obs ! i) = Some c \<and> o_value (obs ! (i - 1)) = Some pv
        \<longrightarrow> o_value (repoDelta1 obs ! i) = Some (js_sub c pv))
   \<and> (0 < i \<and> o_value (obs ! i) = Some (Num x) \<and> o_value (obs ! (i - 1)) = Some (Num y)
        \<longrightarrow> o_value (repoDelta1 obs ! i) = Some (Num (x - y)))
   \<and> (o_value (repoLogChg5 obs ! i) = None \<longleftrightarrow> i < 5)
   \<and> (5 \<le> i \<and> o_value (obs ! i) = Some c \<and> o_value (obs ! (i - 5)) = Some pv
        \<longrightarrow> o_value (repoLogChg5 obs ! i) = Some (js_sub (Math_log1p c) (Math_log1p pv)))
   \<and> (5 \<le> i \<and> o_value (obs ! i) = Some (Num x) \<and> o_value (obs ! (i - 5)) = Some (Num y)
        \<and> - 1 < x \<and> - 1 < y
        \<longrightarrow> o_value (repoLogChg5 obs ! i) = Some (Num (ln (1 + x) - ln (1 + y))))"
  using assms
  by (auto simp: nth_repoDelta1 nth_repoLogChg5 js_sub_def split: option.splits)

theorem repo_features_nulls_witness:
  "(5::nat) < length repo6
   \<and> o_value (repoDelta1 repo6 ! 5) = Some (Num (3 - 2))
   \<and> o_value (repoLogChg5 repo6 ! 5) = Some (Num (ln (1 + 3) - ln (1 + 0)))
   \<and> o_value (repoLogChg5 repo6 ! 5) \<noteq> None"
proof -
  have len: "(5::nat) < length repo6" by (simp add: repo6_def)
  have v: "o_value (repo6 ! 5) = Some (Num 3)" "o_value (repo6 ! (5 - 1)) = Some (Num 2)"
    "o_value (repo6 ! (5 - 5)) = Some (Num 0)"
    by (simp_all add: repo6_def)
  from repo_features_nulls [OF len, of _ _ 3 2] v(1,2)
  have a: "o_value (repoDelta1 repo6 ! 5) = Some (Num (3 - 2))"
    by simp
  from repo_features_nulls [OF len, of _ _ 3 0] v(1,3)
  have b: "o_value (repoLogChg5 repo6 ! 5) = Some (Num (ln (1 + 3) - ln (1 + 0)))"
    by (simp add: js_sub_def)
  from repo_features_nulls [OF len]
  have c: "o_value (repoLogChg5 repo6 ! 5) \<noteq> None"
    by simp
  from len a b c show ?thesis by blast
qed

subsection \<open>Rows without a repo feature, rows without a spread\<close>

lemma repoLogChg5_short_all_null:
  assumes "length obs \<le> 5"
  shows "filter (\<lambda>x. o_value x \<noteq> None) (repoLogChg5 obs) = []"
proof -
  have "\<forall>x\<in>set (repoLogChg5 obs). o_value x = None"
  proof
    fix x assume "x \<in> set (repoLogChg5 obs)"
    then obtain i where "i < length obs" "x = repoLogChg5 obs ! i"
      by (auto simp: in_set_conv_nth length_repoLogChg5)
    with assms show "o_value x = None" by (simp add: nth_repoLogChg5)
  qed
  then show ?thesis by (simp add: filter_empty_conv)
qed

lemma nonNullMap_short: "length obs \<le> 5 \<Longrightarrow> nonNullMap (repoLogChg5 obs) = Map.empty"
  unfolding nonNullMap_def
  by (simp only: repoLogChg5_short_all_null) (simp add: js_Map_def)

lemma f_repoLogChg5_alignedForModel:
  assumes "row \<in> set (alignedForModel sofrObs effrObs repoObs)"
  shows "f_repoLogChg5 row = getOrNull (nonNullMap (repoLogChg5 repoObs)) (f_date row)"
  using assms by (auto simp: alignedForModel_def Let_def)

lemma alignedForModel_short_null:
  assumes "length repoObs \<le> 5" "row \<in> set (alignedForModel sofrObs effrObs repoObs)"
  shows "f_repoLogChg5 row = None"
  by (simp add: f_repoLogChg5_alignedForModel [OF assms(2)] nonNullMap_short [OF assms(1)]
      getOrNull_def)

lemma pRepo_points_all_null:
  assumes "\<forall>row\<in>set rows. f_repoLogChg5 row = None"
  shows "\<forall>p\<in>set (points (computeBeginnerPlus rows k)). pRepo p = Num 0"
  using assms by (simp add: points_computeBeginnerPlus pRepo_scorePoint_null)

lemma spread_value_nonnull: "a \<in> set (spread sofrObs effrObs) \<Longrightarrow> o_value a \<noteq> None"
  by (auto simp: spread_def)

text \<open>The rows that \<open>renderCorePanels\<close> builds never have a \<open>null\<close> spread.\<close>

lemma alignedForModel_spread_nonnull:
  assumes "row \<in> set (alignedForModel sofrObs effrObs repoObs)"
  shows "f_spread row \<noteq> None"
proof -
  from assms obtain r where r: "r \<in> set (alignByDate (spread sofrObs effrObs) repoObs)"
    and fr: "f_spread row = r_a r"
    by (auto simp: alignedForModel_def Let_def aligned_def)
  from rows_alignByDate [OF r]
  obtain a where a: "a \<in> set (spread sofrObs effrObs)" "o_value a = r_a r"
    by auto
  from spread_value_nonnull [OF a(1)] a(2) fr show ?thesis by simp
qed

lemma spread_example:
  "spread sofrEx effrEx =
     [\<lparr>o_date = ''D1'', o_value = Some (Num (- (2 / 100)))\<rparr>,
      \<lparr>o_date = ''D2'', o_value = Some (Num (1 / 100))\<rparr>,
      \<lparr>o_date = ''D3'', o_value = Some (Num (1 / 100))\<rparr>]"
  by (simp add: spread_def alignByDate_def js_Map_def sofrEx_def effrEx_def js_sub_def)

lemma length_alignedForModel_example: "length (alignedForModel sofrEx effrEx repo4) = 3"
  by (simp add: alignedForModel_def aligned_def spread_example Let_def)
    (simp add: alignByDate_def js_Map_def repo4_def)

lemma map_const: "\<forall>x\<in>set xs. f x = c \<Longrightarrow> map f xs = replicate (length xs) c"
  by (induction xs) simp_all

text \<open>
  C8. A row whose \<open>repoLogChg5\<close> is \<open>null\<close> gets \<open>pRepo = 0\<close>; and when the repo volume
  series has fewer than six observations (four, in the spec's scenario), every point
  computed from the rows that \<open>renderCorePanels\<close> builds has \<open>pRepo = 0\<close>.
\<close>

theorem pRepo_null_feature:
  "(\<forall>i<length rows. f_repoLogChg5 (rows ! i) = None \<longrightarrow>
      pRepo (points (computeBeginnerPlus rows k) ! i) = Num 0)
   \<and> (length repoObs < 6 \<longrightarrow>
        (\<forall>p\<in>set (points (computeBeginnerPlus (alignedForModel sofrObs effrObs repoObs) k)).
            pRepo p = Num 0))"
proof (intro conjI impI)
  show "\<forall>i<length rows. f_repoLogChg5 (rows ! i) = None \<longrightarrow>
      pRepo (points (computeBeginnerPlus rows k) ! i) = Num 0"
    by (simp add: points_computeBeginnerPlus pRepo_scorePoint_null)
next
  assume "length repoObs < 6"
  then have len: "length repoObs \<le> 5" by simp
  have "\<forall>row\<in>set (alignedForModel sofrObs effrObs repoObs). f_repoLogChg5 row = None"
    using alignedForModel_short_null [OF len] by blast
  then show "\<forall>p\<in>set (points (computeBeginnerPlus (alignedForModel sofrObs effrObs repoObs) k)).
      pRepo p = Num 0"
    by (rule pRepo_points_all_null)
qed

theorem pRepo_null_feature_witness:
  "length repo4 = 4
   \<and> map pRepo (points (computeBeginnerPlus (alignedForModel sofrEx effrEx repo4) (Num (25 / 10))))
       = [Num 0, Num 0, Num 0]
   \<and> f_repoLogChg5 ([null_spread_row] ! 0) = None
   \<and> pRepo (points (computeBeginnerPlus [null_spread_row] (Num (25 / 10))) ! 0) = Num 0"
proof -
  have len: "length repo4 = 4" by (simp add: repo4_def)
  have nul: "f_repoLogChg5 ([null_spread_row] ! 0) = None" by (simp add: null_spread_row_def)
  note c8 = pRepo_null_feature [of "[null_spread_row]" "Num (25 / 10)" repo4 sofrEx effrEx]
  from c8 len
  have "\<forall>p\<in>set (points (computeBeginnerPlus (alignedForModel sofrEx effrEx repo4)
                          (Num (25 / 10)))). pRepo p = Num 0"
    by simp
  from map_const [OF this]
  have a: "map pRepo (points (computeBeginnerPlus (alignedForModel sofrEx effrEx repo4)
                                (Num (25 / 10))))
       = [Num 0, Num 0, Num 0]"
    by (simp add: length_points length_alignedForModel_example numeral_3_eq_3)
  from c8 nul
  have b: "pRepo (points (computeBeginnerPlus [null_spread_row] (Num (25 / 10))) ! 0) = Num 0"
    by simp
  from len a nul b show ?thesis by blast
qed

text \<open>
  C2, as the spec states it, fails on a row whose spread is \<open>null\<close>: the model maps over
  all rows, reads the \<open>null\<close> as 0 in the subtraction and returns a point for the row
  (here with \<open>NaN\<close> scores, the mean of no finite value being \<open>NaN\<close>), where the claim
  counts no point.
\<close>

theorem computeBeginnerPlus_null_spread_counterexample:
  "points (computeBeginnerPlus [null_spread_row] (Num (25 / 10)))
     = [\<lparr>s_date = ''2024-01-02'', pStress = NaN, pSpread = NaN, pRepo = Num 0,
         zSpread = NaN\<rparr>]
   \<and> filter (\<lambda>r. f_spread r \<noteq> None) [null_spread_row] = []
   \<and> length (points (computeBeginnerPlus [null_spread_row] (Num (25 / 10))))
       \<noteq> length (filter (\<lambda>r. f_spread r \<noteq> None) [null_spread_row])"
  by (simp add: points_computeBeginnerPlus null_spread_row_def scorePoint_def mean_def
      std_def js_or_def js_sub_def tailProbFromZ_def sigmoid_def Math_max_def Math_min_def
      combineStress_def)

text \<open>
  C2, amended. \<open>computeBeginnerPlus\<close> returns exactly one point per row, no row being
  dropped, with the dates of the rows in their order, and \<open>latest\<close> is the last of the
  points (\<open>null\<close> when there is none). So the points are one per row with a non-null
  spread when no row has a \<open>null\<close> spread, and the rows that \<open>renderCorePanels\<close> passes
  never have one.
\<close>

theorem computeBeginnerPlus_one_point_per_row:
  "length (points (computeBeginnerPlus rows k)) = length rows
   \<and> map s_date (points (computeBeginnerPlus rows k)) = map f_date rows
   \<and> latest (computeBeginnerPlus rows k) =
       (if rows = [] then None else Some (last (points (computeBeginnerPlus rows k))))
   \<and> ((\<forall>r\<in>set rows. f_spread r \<noteq> None) \<longrightarrow>
         map s_date (points (computeBeginnerPlus rows k))
           = map f_date (filter (\<lambda>r. f_spread r \<noteq> None) rows))
   \<and> filter (\<lambda>r. f_spread r \<noteq> None) (alignedForModel sofrObs effrObs repoObs)
       = alignedForModel sofrObs effrObs repoObs"
proof -
  have "map s_date (points (computeBeginnerPlus rows k)) = map f_date rows"
    by (simp add: points_computeBeginnerPlus s_date_scorePoint comp_def)
  moreover have "(\<forall>r\<in>set rows. f_spread r \<noteq> None) \<longrightarrow>
      filter (\<lambda>r. f_spread r \<noteq> None) rows = rows"
    by (simp add: filter_id_conv)
  moreover have "filter (\<lambda>r. f_spread r \<noteq> None) (alignedForModel sofrObs effrObs repoObs)
       = alignedForModel sofrObs effrObs repoObs"
    using alignedForModel_spread_nonnull [of _ sofrObs effrObs repoObs]
    by (simp add: filter_id_conv)
  ultimately show ?thesis
    by (simp add: length_points latest_computeBeginnerPlus)
qed

theorem computeBeginnerPlus_one_point_per_row_witness:
  "list_all (\<lambda>r. f_spread r \<noteq> None) sparseRows
   \<and> map s_date (points (computeBeginnerPlus sparseRows (Num (25 / 10))))
       = map f_date (filter (\<lambda>r. f_spread r \<noteq> None) sparseRows)
   \<and> map s_date (points (computeBeginnerPlus sparseRows (Num (25 / 10)))) = [''D1'', ''D2'']
   \<and> latest (computeBeginnerPlus sparseRows (Num (25 / 10)))
       = Some (last (points (computeBeginnerPlus sparseRows (Num (25 / 10)))))"
proof -
  have h: "\<forall>r\<in>set sparseRows. f_spread r \<noteq> None" by (simp add: sparseRows_def)
  note c2 = computeBeginnerPlus_one_point_per_row [of sparseRows "Num (25 / 10)"]
  from c2 h
  have a: "map s_date (points (computeBeginnerPlus sparseRows (Num (25 / 10))))
       = map f_date (filter (\<lambda>r. f_spread r \<noteq> None) sparseRows)"
    by blast
  from c2 have b: "map s_date (points (computeBeginnerPlus sparseRows (Num (25 / 10))))
       = [''D1'', ''D2'']"
    by (simp add: sparseRows_def)
  from c2 have c: "latest (computeBeginnerPlus sparseRows (Num (25 / 10)))
       = Some (last (points (computeBeginnerPlus sparseRows (Num (25 / 10)))))"
    by (simp add: sparseRows_def)
  from h have "list_all (\<lambda>r. f_spread r \<noteq> None) sparseRows"
    by (simp add: list_all_iff)
  with a b c show ?thesis by blast
qed

subsection \<open>Properties of the rounding\<close>

lemma rne_bounds: "\<lfloor>r\<rfloor> \<le> rne r" "rne r \<le> \<lfloor>r\<rfloor> + 1"
  by (simp_all add: rne_def Let_def)

lemma rne_of_int: "rne (of_int n) = n"
  by (simp add: rne_def)

lemma rne_error: "\<bar>of_int (rne r) - r\<bar> \<le> 1 / 2"
proof -
  have "of_int \<lfloor>r\<rfloor> \<le> r" "r < of_int \<lfloor>r\<rfloor> + 1" by linarith+
  then show ?thesis by (auto simp: rne_def Let_def)
qed

lemma rne_mono:
  assumes "r \<le> s"
  shows "rne r \<le> rne s"
proof (cases "\<lfloor>r\<rfloor> = \<lfloor>s\<rfloor>")
  case True
  with assms have "r - of_int \<lfloor>r\<rfloor> \<le> s - of_int \<lfloor>s\<rfloor>" by simp
  with True show ?thesis by (auto simp: rne_def Let_def)
next
  case False
  with assms have "\<lfloor>r\<rfloor> + 1 \<le> \<lfloor>s\<rfloor>" using floor_mono [OF assms] by linarith
  with rne_bounds(2) [of r] rne_bounds(1) [of s] show ?thesis by linarith
qed

lemma rne_le_int: "r \<le> of_int n \<Longrightarrow> rne r \<le> n"
  using rne_mono [of r "of_int n"] by (simp add: rne_of_int)

lemma int_le_rne: "of_int n \<le> r \<Longrightarrow> n \<le> rne r"
  using rne_mono [of "of_int n" r] by (simp add: rne_of_int)

lemma floor_log2_bracket:
  assumes "0 < x"
  shows "2 powi \<lfloor>log 2 x\<rfloor> \<le> x" "x < 2 powi (\<lfloor>log 2 x\<rfloor> + 1)"
proof -
  have "2 powr real_of_int \<lfloor>log 2 x\<rfloor> \<le> x \<and> x < 2 powr real_of_int (\<lfloor>log 2 x\<rfloor> + 1)"
    using floor_log_eq_powr_iff [of x 2 "\<lfloor>log 2 x\<rfloor>"] assms by simp
  moreover have "2 powr real_of_int k = (2::real) powi k" for k :: int
    by (rule powr_real_of_int') simp_all
  ultimately show "2 powi \<lfloor>log 2 x\<rfloor> \<le> x" "x < 2 powi (\<lfloor>log 2 x\<rfloor> + 1)"
    by (simp_all only:)
qed

lemma exponent64_upper:
  assumes "0 < x"
  shows "x < 2 powi (exponent64 x + 1)"
proof -
  have "x < 2 powi (\<lfloor>log 2 x\<rfloor> + 1)" by (rule floor_log2_bracket [OF assms])
  also have "\<dots> \<le> 2 powi (exponent64 x + 1)"
    using assms by (intro power_int_increasing) (simp_all add: exponent64_def)
  finally show ?thesis .
qed

lemma exponent64_lower:
  assumes "0 < x" "- 1022 < exponent64 x"
  shows "2 powi exponent64 x \<le> x"
proof -
  from assms have "exponent64 x = \<lfloor>log 2 x\<rfloor>" by (simp add: exponent64_def max_def split: if_splits)
  then show ?thesis using floor_log2_bracket(1) [OF assms(1)] by simp
qed

lemma exponent64_mono:
  assumes "0 < x" "x \<le> y"
  shows "exponent64 x \<le> exponent64 y"
proof -
  have "log 2 x \<le> log 2 y" using assms by simp
  then have "\<lfloor>log 2 x\<rfloor> \<le> \<lfloor>log 2 y\<rfloor>" by (rule floor_mono)
  then have "max \<lfloor>log 2 x\<rfloor> (- 1022) \<le> max \<lfloor>log 2 y\<rfloor> (- 1022)"
    by (rule max.mono) simp
  moreover have "\<bar>x\<bar> = x" "\<bar>y\<bar> = y" using assms by simp_all
  ultimately show ?thesis by (simp only: exponent64_def)
qed

lemma quantum_pos: "0 < (2::real) powi e"
  by simp

lemma round64_pos_eq:
  "x \<noteq> 0 \<Longrightarrow> round64 x = 2 powi (exponent64 x - 52) * of_int (rne (x / 2 powi (exponent64 x - 52)))"
  by (simp add: round64_def Let_def)

lemma round64_0: "round64 0 = 0"
  by (simp add: round64_def)

lemma round64_nonneg:
  assumes "0 \<le> x"
  shows "0 \<le> round64 x"
proof (cases "x = 0")
  case True
  then show ?thesis by (simp add: round64_0)
next
  case False
  let ?q = "(2::real) powi (exponent64 x - 52)"
  have "0 \<le> x / ?q" using assms by simp
  then have "0 \<le> rne (x / ?q)" using int_le_rne [of 0 "x / ?q"] by simp
  then show ?thesis using False by (simp add: round64_pos_eq)
qed

lemma round64_error:
  assumes "x \<noteq> 0"
  shows "\<bar>round64 x - x\<bar> \<le> 2 powi (exponent64 x - 52) / 2"
proof -
  let ?q = "(2::real) powi (exponent64 x - 52)"
  have q: "0 < ?q" by simp
  have "round64 x - x = ?q * (of_int (rne (x / ?q)) - x / ?q)"
    using q assms by (simp add: round64_pos_eq algebra_simps)
  then have "\<bar>round64 x - x\<bar> = ?q * \<bar>of_int (rne (x / ?q)) - x / ?q\<bar>"
    using q by (simp add: abs_mult)
  also have "\<dots> \<le> ?q * (1 / 2)"
    using q rne_error [of "x / ?q"] by (intro mult_left_mono) simp_all
  finally show ?thesis by simp
qed

lemma two_powi_split: "(2::real) powi (e + 1) = 2 powi (e - 52) * 2 ^ 53"
proof -
  have "(2::real) powi ((e - 52) + 53) = 2 powi (e - 52) * 2 powi 53"
    by (rule power_int_add) simp
  moreover have "(e - 52) + 53 = e + 1" by simp
  ultimately show ?thesis by simp
qed

lemma two_powi_split': "(2::real) powi e = 2 powi (e - 52) * 2 ^ 52"
proof -
  have "(2::real) powi ((e - 52) + 52) = 2 powi (e - 52) * 2 powi 52"
    by (rule power_int_add) simp
  moreover have "(e - 52) + 52 = e" by simp
  ultimately show ?thesis by simp
qed

lemma round64_upper:
  assumes "0 < x"
  shows "round64 x \<le> 2 powi (exponent64 x + 1)"
proof -
  let ?q = "(2::real) powi (exponent64 x - 52)"
  have q: "0 < ?q" by simp
  have "x < ?q * 2 ^ 53" using exponent64_upper [OF assms] by (simp add: two_powi_split)
  then have "x / ?q \<le> of_int (2 ^ 53)" using q by (simp add: field_simps)
  then have "rne (x / ?q) \<le> 2 ^ 53" by (rule rne_le_int)
  then have "(of_int (rne (x / ?q)) :: real) \<le> 2 ^ 53" 
    by (metis of_int_le_iff of_int_numeral of_int_power)
  then have "?q * of_int (rne (x / ?q)) \<le> ?q * 2 ^ 53"
    using q by (intro mult_left_mono) simp_all
  then show ?thesis using assms by (simp add: round64_pos_eq two_powi_split)
qed

lemma round64_lower:
  assumes "0 < x" "- 1022 < exponent64 x"
  shows "2 powi exponent64 x \<le> round64 x"
proof -
  let ?q = "(2::real) powi (exponent64 x - 52)"
  have q: "0 < ?q" by simp
  have "?q * 2 ^ 52 \<le> x"
    using exponent64_lower [OF assms] two_powi_split' [of "exponent64 x"] by simp
  then have "of_int (2 ^ 52) \<le> x / ?q" using q by (simp add: field_simps)
  then have "2 ^ 52 \<le> rne (x / ?q)" by (rule int_le_rne)
  then have "(2 ^ 52 :: real) \<le> of_int (rne (x / ?q))"
    by (metis of_int_le_iff of_int_numeral of_int_power)
  then have "?q * 2 ^ 52 \<le> ?q * of_int (rne (x / ?q))"
    using q by (intro mult_left_mono) simp_all
  then show ?thesis
    using assms two_powi_split' [of "exponent64 x"] by (simp add: round64_pos_eq)
qed

lemma round64_mono:
  assumes "0 \<le> x" "x \<le> y"
  shows "round64 x \<le> round64 y"
proof (cases "x = 0")
  case True
  then show ?thesis using round64_nonneg [of y] assms by (simp add: round64_0)
next
  case False
  with assms have x: "0 < x" and y: "0 < y" by simp_all
  show ?thesis
  proof (cases "exponent64 x = exponent64 y")
    case True
    let ?q = "(2::real) powi (exponent64 y - 52)"
    have q: "0 < ?q" by simp
    have "x / ?q \<le> y / ?q" using assms q by (simp add: divide_right_mono)
    then have "rne (x / ?q) \<le> rne (y / ?q)" by (rule rne_mono)
    then have "?q * of_int (rne (x / ?q)) \<le> ?q * of_int (rne (y / ?q))"
      using q by (intro mult_left_mono) simp_all
    then show ?thesis using x y True by (simp add: round64_pos_eq)
  next
    case False
    with exponent64_mono [OF x assms(2)] have lt: "exponent64 x + 1 \<le> exponent64 y" by simp
    moreover have "- 1022 \<le> exponent64 x" by (simp add: exponent64_def)
    ultimately have big: "- 1022 < exponent64 y" by simp
    have "round64 x \<le> 2 powi (exponent64 x + 1)" by (rule round64_upper [OF x])
    also have "\<dots> \<le> 2 powi exponent64 y" using lt by (intro power_int_increasing) simp_all
    also have "\<dots> \<le> round64 y" by (rule round64_lower [OF y big])
    finally show ?thesis .
  qed
qed

lemma exponent64_1: "exponent64 1 = 0"
  by (simp add: exponent64_def)

lemma round64_1: "round64 1 = 1"
proof -
  have "(1::real) / 2 powi (- 52) = of_int (2 ^ 52)" by (simp add: power_int_minus)
  then have "rne (1 / 2 powi (- 52)) = 2 ^ 52" by (simp only: rne_of_int)
  then show ?thesis by (simp add: round64_def exponent64_1 Let_def power_int_minus)
qed

lemma exponent64_lt1:
  assumes "0 < x" "x < 1"
  shows "exponent64 x \<le> - 1"
proof -
  have "log 2 x < 0" using assms by simp
  then have "\<lfloor>log 2 x\<rfloor> \<le> - 1" by linarith
  moreover have "\<bar>x\<bar> = x" using assms by simp
  ultimately show ?thesis by (simp add: exponent64_def)
qed

lemma round64_unit:
  assumes "0 \<le> x" "x \<le> 1"
  shows "0 \<le> round64 x" "round64 x \<le> 1" "\<bar>round64 x - x\<bar> \<le> 1 / 2 ^ 54"
proof -
  show "0 \<le> round64 x" by (rule round64_nonneg [OF assms(1)])
  show "round64 x \<le> 1" using round64_mono [OF assms] by (simp add: round64_1)
  show "\<bar>round64 x - x\<bar> \<le> 1 / 2 ^ 54"
  proof (cases "x = 0 \<or> x = 1")
    case True
    then show ?thesis by (auto simp: round64_0 round64_1)
  next
    case False
    with assms have x: "0 < x" "x < 1" by simp_all
    have "(2::real) powi (exponent64 x - 52) \<le> 2 powi (- 53)"
      using exponent64_lt1 [OF x] by (intro power_int_increasing) simp_all
    then have "(2::real) powi (exponent64 x - 52) / 2 \<le> 1 / 2 ^ 54"
      by (simp add: power_int_minus field_simps)
    with round64_error [of x] x show ?thesis by linarith
  qed
qed

text \<open>Evaluating the rounding at a number whose exponent is known.\<close>

lemma round64_eval:
  assumes "0 < x" "2 powi e \<le> x" "x < 2 powi (e + 1)" "- 1022 \<le> e"
  shows "round64 x = 2 powi (e - 52) * of_int (rne (x / 2 powi (e - 52)))"
proof -
  have p: "2 powr real_of_int k = (2::real) powi k" for k :: int
    by (rule powr_real_of_int') simp_all
  have "\<lfloor>log 2 x\<rfloor> = e"
    using floor_log_eq_powr_iff [of x 2 e] assms(1-3) by (simp only: p)
  moreover have "\<bar>x\<bar> = x" using assms(1) by simp
  ultimately have "exponent64 x = e" using assms(4) by (simp add: exponent64_def)
  then show ?thesis using assms(1) by (simp add: round64_pos_eq)
qed

lemma d01_double: "round64 d01 = d01"
  by (subst round64_eval [where e = "- 4"]) (simp_all add: d01_def rne_def)

lemma round64_one_minus_d01: "round64 (1 - d01) = 8106479329266893 / 2 ^ 53"
  by (subst round64_eval [where e = "- 1"]) (simp_all add: d01_def rne_def)

lemma round64_09: "round64 (8106479329266893 / 2 ^ 53) = 8106479329266893 / 2 ^ 53"
  by (subst round64_eval [where e = "- 1"]) (simp_all add: rne_def)

lemma round64_one_minus_09: "round64 (1 - 8106479329266893 / 2 ^ 53) = 900719925474099 / 2 ^ 53"
  by (subst round64_eval [where e = "- 4"]) (simp_all add: rne_def)

lemma round64_tiny: "round64 (1 / 2 ^ 64) = 1 / 2 ^ 64"
  by (subst round64_eval [where e = "- 64"]) (simp_all add: rne_def)

lemma round64_one_minus_tiny: "round64 (1 - 1 / 2 ^ 64) = 1"
  by (subst round64_eval [where e = "- 1"]) (simp_all add: rne_def)

lemma round64_near_one: "round64 (1 - 1 / 2 ^ 34) = 1 - 1 / 2 ^ 34"
  by (subst round64_eval [where e = "- 1"]) (simp_all add: rne_def)

lemma round64_pow34: "round64 (1 / 2 ^ 34) = 1 / 2 ^ 34"
  by (subst round64_eval [where e = "- 34"]) (simp_all add: rne_def)

lemma round64_pow68: "round64 (1 / 2 ^ 68) = 1 / 2 ^ 68"
  by (subst round64_eval [where e = "- 68"]) (simp_all add: rne_def)

lemma round64_one_minus_pow68: "round64 (1 - 1 / 2 ^ 68) = 1"
  by (subst round64_eval [where e = "- 1"]) (simp_all add: rne_def)

subsection \<open>The stress combiner\<close>

lemma product_unit:
  fixes x y :: real
  assumes "0 \<le> x" "x \<le> 1" "0 \<le> y" "y \<le> 1"
  shows "0 \<le> x * y" "x * y \<le> 1"
  using assms by (simp_all add: mult_le_one)

lemma combine64_steps:
  assumes "0 \<le> a" "a \<le> 1" "0 \<le> b" "b \<le> 1"
  shows "0 \<le> round64 (1 - a)" "round64 (1 - a) \<le> 1"
    "0 \<le> round64 (1 - b)" "round64 (1 - b) \<le> 1"
    "0 \<le> round64 (round64 (1 - a) * round64 (1 - b))"
    "round64 (round64 (1 - a) * round64 (1 - b)) \<le> 1"
proof -
  show x: "0 \<le> round64 (1 - a)" "round64 (1 - a) \<le> 1"
    using assms by (simp_all add: round64_unit)
  show y: "0 \<le> round64 (1 - b)" "round64 (1 - b) \<le> 1"
    using assms by (simp_all add: round64_unit)
  show "0 \<le> round64 (round64 (1 - a) * round64 (1 - b))"
    "round64 (round64 (1 - a) * round64 (1 - b)) \<le> 1"
    using product_unit [OF x y] by (simp_all add: round64_unit)
qed

lemma combine64_range:
  assumes "0 \<le> a" "a \<le> 1" "0 \<le> b" "b \<le> 1"
  shows "0 \<le> combine64 a b" "combine64 a b \<le> 1"
  unfolding combine64_def
  by (rule round64_unit(1), use combine64_steps(5,6) [OF assms] in simp_all)
    (rule round64_unit(2), use combine64_steps(5,6) [OF assms] in simp_all)

lemma combine64_error:
  assumes "0 \<le> a" "a \<le> 1" "0 \<le> b" "b \<le> 1"
  shows "\<bar>combine64 a b - (1 - (1 - a) * (1 - b))\<bar> \<le> 1 / 2 ^ 52"
proof -
  let ?h = "1 / 2 ^ 54 :: real"
  let ?x = "round64 (1 - a)" and ?y = "round64 (1 - b)"
  let ?p = "round64 (?x * ?y)"
  note st = combine64_steps [OF assms]
  have ex: "\<bar>?x - (1 - a)\<bar> \<le> ?h"
    by (rule round64_unit(3)) (use assms in simp_all)
  have ey: "\<bar>?y - (1 - b)\<bar> \<le> ?h"
    by (rule round64_unit(3)) (use assms in simp_all)
  have ep: "\<bar>?p - ?x * ?y\<bar> \<le> ?h"
    by (rule round64_unit(3)) (rule product_unit [OF st(1-4)])+
  have es: "\<bar>combine64 a b - (1 - ?p)\<bar> \<le> ?h"
    unfolding combine64_def by (rule round64_unit(3)) (use st(5,6) in simp_all)
  have "?x * ?y - (1 - a) * (1 - b) = ?x * (?y - (1 - b)) + (1 - b) * (?x - (1 - a))"
    by (simp add: algebra_simps)
  moreover have "\<bar>?x * (?y - (1 - b))\<bar> \<le> 1 * ?h"
    unfolding abs_mult using st(1,2) ey by (intro mult_mono) simp_all
  moreover have "\<bar>(1 - b) * (?x - (1 - a))\<bar> \<le> 1 * ?h"
    unfolding abs_mult using assms ex by (intro mult_mono) simp_all
  ultimately have exy: "\<bar>?x * ?y - (1 - a) * (1 - b)\<bar> \<le> 2 * ?h"
    by linarith
  have "\<bar>combine64 a b - (1 - (1 - a) * (1 - b))\<bar> \<le> 4 * ?h"
    using es ep exy by linarith
  then show ?thesis by simp
qed

lemma combine64_mono:
  assumes "0 \<le> a" "a \<le> a'" "a' \<le> 1" "0 \<le> b" "b \<le> b'" "b' \<le> 1"
  shows "combine64 a b \<le> combine64 a' b'"
proof -
  have a: "a \<le> 1" and b: "b \<le> 1" and a': "0 \<le> a'" and b': "0 \<le> b'"
    using assms by simp_all
  note st = combine64_steps [OF assms(1) a assms(4) b]
  note st' = combine64_steps [OF a' assms(3) b' assms(6)]
  have x: "round64 (1 - a') \<le> round64 (1 - a)"
    using assms by (intro round64_mono) simp_all
  have y: "round64 (1 - b') \<le> round64 (1 - b)"
    using assms by (intro round64_mono) simp_all
  have "round64 (1 - a') * round64 (1 - b') \<le> round64 (1 - a) * round64 (1 - b)"
    using x y st' st by (intro mult_mono) simp_all
  then have "round64 (round64 (1 - a') * round64 (1 - b'))
      \<le> round64 (round64 (1 - a) * round64 (1 - b))"
    using product_unit(1) [OF st'(1-4)] by (intro round64_mono) simp_all
  then show ?thesis
    unfolding combine64_def using st(6) by (intro round64_mono) simp_all
qed

lemma combine64_zero: "combine64 0 0 = 0"
  by (simp add: combine64_def round64_1 round64_0)

lemma combine64_one: "combine64 1 b = 1" "combine64 a 1 = 1"
  by (simp_all add: combine64_def round64_1 round64_0)

lemma real_combine_ge:
  fixes a b :: real
  assumes "0 \<le> a" "a \<le> 1" "0 \<le> b" "b \<le> 1"
  shows "max a b \<le> 1 - (1 - a) * (1 - b)"
proof -
  have "0 \<le> (1 - a) * b" "0 \<le> a * (1 - b)" using assms by simp_all
  then have "a \<le> 1 - (1 - a) * (1 - b)" "b \<le> 1 - (1 - a) * (1 - b)"
    by (simp_all add: algebra_simps)
  then show ?thesis by simp
qed

lemma combine64_ge_max:
  assumes "0 \<le> a" "a \<le> 1" "0 \<le> b" "b \<le> 1"
  shows "max a b - 1 / 2 ^ 52 \<le> combine64 a b"
  using combine64_error [OF assms] real_combine_ge [OF assms] by linarith

lemma round64_1_0: "round64 (1 - 0) = 1"
  by (simp add: round64_1)

lemma combine64_d01: "combine64 d01 0 = 900719925474099 / 2 ^ 53"
  unfolding combine64_def by (simp only: round64_one_minus_d01 round64_1_0 mult_1_right round64_09 round64_one_minus_09)

lemma combine64_tiny: "combine64 (1 / 2 ^ 64) 0 = 0"
  unfolding combine64_def
  by (simp only: round64_one_minus_tiny round64_1_0 mult_1_right round64_1 diff_self round64_0)

lemma combine64_near_one: "combine64 (1 - 1 / 2 ^ 34) (1 - 1 / 2 ^ 34) = 1"
proof -
  have "round64 (1 - (1 - 1 / 2 ^ 34)) = 1 / 2 ^ 34" using round64_pow34 by simp
  moreover have "(1 / 2 ^ 34 :: real) * (1 / 2 ^ 34) = 1 / 2 ^ 68" by simp
  ultimately show ?thesis by (simp only: combine64_def round64_pow68 round64_one_minus_pow68)
qed

lemma max_double_gt1: "1 < max_double"
proof -
  have "(1::real) \<le> 2 ^ 971" by (rule one_le_power) simp
  moreover have "(1::real) < 2 ^ 53 - 1" by simp
  ultimately have "1 * 1 < (2 ^ 53 - 1) * (2 ^ 971 :: real)"
    by (intro mult_less_le_imp_less) simp_all
  then show ?thesis by (simp only: max_double_def mult_1)
qed

lemma js_round_unit:
  assumes "0 \<le> x" "x \<le> 1"
  shows "js_round (Num x) = Num (round64 x)"
  using round64_unit(1,2) [OF assms] max_double_gt1 by (simp add: Let_def)

lemma js_one_minus: "js_sub (Num 1) (Num x) = Num (1 - x)"
  by (simp add: js_sub_def)

lemma combineStress_unit:
  assumes "0 \<le> a" "a \<le> 1" "0 \<le> b" "b \<le> 1"
  shows "combineStress (Num a) (Num b) = Num (combine64 a b)"
proof -
  note st = combine64_steps [OF assms]
  have x: "js_round (js_sub (Num 1) (Num a)) = Num (round64 (1 - a))"
    unfolding js_one_minus by (rule js_round_unit) (use assms in simp_all)
  have y: "js_round (js_sub (Num 1) (Num b)) = Num (round64 (1 - b))"
    unfolding js_one_minus by (rule js_round_unit) (use assms in simp_all)
  have p: "js_round (js_mul (Num (round64 (1 - a))) (Num (round64 (1 - b))))
      = Num (round64 (round64 (1 - a) * round64 (1 - b)))"
    unfolding js_mul.simps by (rule js_round_unit) (rule product_unit [OF st(1-4)])+
  have s: "js_round (js_sub (Num 1) (Num (round64 (round64 (1 - a) * round64 (1 - b)))))
      = Num (combine64 a b)"
    unfolding js_one_minus combine64_def by (rule js_round_unit) (use st(5,6) in simp_all)
  show ?thesis unfolding combineStress_def by (simp only: x y p s)
qed

text \<open>
  C1, as the spec states it, fails in the arithmetic of the code. With \<open>pSpread\<close> the
  double nearest to 0.1 and \<open>pRepo = 0\<close>, \<open>1 - pSpread\<close> rounds up, so the result is one
  unit in the last place below \<open>pSpread\<close>: smaller than \<open>max(pSpread, pRepo)\<close>. With
  \<open>pSpread = 2^-64\<close> the result is 0 although an input is not 0, and with both inputs
  \<open>1 - 2^-34\<close> it is 1 although no input is 1.
\<close>

theorem combineStress_rounding_counterexample:
  "round64 d01 = d01 \<and> 0 \<le> d01 \<and> d01 \<le> 1
   \<and> combineStress (Num d01) (Num 0) = Num (900719925474099 / 2 ^ 53)
   \<and> \<not> js_ge (combineStress (Num d01) (Num 0)) (Num (max d01 0))
   \<and> round64 (1 / 2 ^ 64) = 1 / 2 ^ 64
   \<and> combineStress (Num (1 / 2 ^ 64)) (Num 0) = Num 0
   \<and> round64 (1 - 1 / 2 ^ 34) = 1 - 1 / 2 ^ 34
   \<and> combineStress (Num (1 - 1 / 2 ^ 34)) (Num (1 - 1 / 2 ^ 34)) = Num 1"
proof -
  have d: "0 \<le> d01" "d01 \<le> 1" by (simp_all add: d01_def)
  have "combineStress (Num d01) (Num 0) = Num (combine64 d01 0)"
    by (rule combineStress_unit) (simp_all add: d)
  then have a: "combineStress (Num d01) (Num 0) = Num (900719925474099 / 2 ^ 53)"
    by (simp only: combine64_d01)
  have "\<not> (max d01 0 \<le> 900719925474099 / 2 ^ 53)" by (simp add: d01_def)
  then have b: "\<not> js_ge (combineStress (Num d01) (Num 0)) (Num (max d01 0))"
    unfolding a by simp
  have "combineStress (Num (1 / 2 ^ 64)) (Num 0) = Num (combine64 (1 / 2 ^ 64) 0)"
    by (rule combineStress_unit) simp_all
  then have c: "combineStress (Num (1 / 2 ^ 64)) (Num 0) = Num 0"
    by (simp only: combine64_tiny)
  have "combineStress (Num (1 - 1 / 2 ^ 34)) (Num (1 - 1 / 2 ^ 34))
      = Num (combine64 (1 - 1 / 2 ^ 34) (1 - 1 / 2 ^ 34))"
    by (rule combineStress_unit) simp_all
  then have e: "combineStress (Num (1 - 1 / 2 ^ 34)) (Num (1 - 1 / 2 ^ 34)) = Num 1"
    by (simp only: combine64_near_one)
  from d01_double d a b round64_tiny c round64_near_one e show ?thesis by blast
qed

text \<open>
  C1, amended. The \<open>pStress\<close> of a point is the combination of its \<open>pSpread\<close> and
  \<open>pRepo\<close>. For \<open>a\<close> and \<open>b\<close> in \<open>[0, 1]\<close> the combination is \<open>1 - (1 - a) * (1 - b)\<close> with each
  of its four operations rounded to binary64; it lies in \<open>[0, 1]\<close>, is within \<open>2^-52\<close> of
  the exact \<open>1 - (1 - a) * (1 - b)\<close>, hence at least \<open>max a b - 2^-52\<close>, is 0 when \<open>a\<close> and \<open>b\<close>
  are 0, is 1 when \<open>a\<close> or \<open>b\<close> is 1, and does not decrease when \<open>a\<close> or \<open>b\<close> grows within
  \<open>[0, 1]\<close>.
\<close>

theorem combineStress_double_properties:
  assumes "0 \<le> a" "a \<le> 1" "0 \<le> b" "b \<le> 1"
  shows "pStress (scorePoint mS sS mR sR k row)
       = combineStress (pSpread (scorePoint mS sS mR sR k row))
           (pRepo (scorePoint mS sS mR sR k row))
   \<and> combineStress (Num a) (Num b)
       = Num (round64 (1 - round64 (round64 (1 - a) * round64 (1 - b))))
   \<and> js_ge (combineStress (Num a) (Num b)) (Num 0)
   \<and> js_ge (Num 1) (combineStress (Num a) (Num b))
   \<and> js_ge (combineStress (Num a) (Num b)) (Num (1 - (1 - a) * (1 - b) - 1 / 2 ^ 52))
   \<and> js_ge (Num (1 - (1 - a) * (1 - b) + 1 / 2 ^ 52)) (combineStress (Num a) (Num b))
   \<and> js_ge (combineStress (Num a) (Num b)) (Num (max a b - 1 / 2 ^ 52))
   \<and> (a = 0 \<and> b = 0 \<longrightarrow> combineStress (Num a) (Num b) = Num 0)
   \<and> (a = 1 \<or> b = 1 \<longrightarrow> combineStress (Num a) (Num b) = Num 1)
   \<and> (\<forall>a' b'. a \<le> a' \<and> a' \<le> 1 \<and> b \<le> b' \<and> b' \<le> 1 \<longrightarrow>
         js_ge (combineStress (Num a') (Num b')) (combineStress (Num a) (Num b)))"
proof -
  have c: "combineStress (Num a) (Num b) = Num (combine64 a b)"
    by (rule combineStress_unit [OF assms])
  have err: "1 - (1 - a) * (1 - b) - 1 / 2 ^ 52 \<le> combine64 a b"
    "combine64 a b \<le> 1 - (1 - a) * (1 - b) + 1 / 2 ^ 52"
    using combine64_error [OF assms] by linarith+
  have mono: "js_ge (combineStress (Num a') (Num b')) (combineStress (Num a) (Num b))"
    if "a \<le> a' \<and> a' \<le> 1 \<and> b \<le> b' \<and> b' \<le> 1" for a' b'
  proof -
    from that assms have u: "0 \<le> a'" "a' \<le> 1" "0 \<le> b'" "b' \<le> 1" by simp_all
    have "combine64 a b \<le> combine64 a' b'"
      using that assms by (intro combine64_mono) simp_all
    then show ?thesis by (simp add: c combineStress_unit [OF u])
  qed
  have zero: "a = 0 \<and> b = 0 \<longrightarrow> combineStress (Num a) (Num b) = Num 0"
    using c by (auto simp: combine64_zero)
  have one: "a = 1 \<or> b = 1 \<longrightarrow> combineStress (Num a) (Num b) = Num 1"
    using c by (auto simp: combine64_one)
  show ?thesis
    using combine64_range [OF assms] err combine64_ge_max [OF assms] mono zero one
    by (simp add: pStress_scorePoint c combine64_def)
qed

theorem combineStress_double_properties_witness:
  "(0::real) \<le> 1 / 4 \<and> (1 / 4 :: real) \<le> 1 \<and> (0::real) \<le> 1 / 2 \<and> (1 / 2 :: real) \<le> 1
   \<and> js_ge (combineStress (Num (1 / 4)) (Num (1 / 2))) (Num (max (1 / 4) (1 / 2) - 1 / 2 ^ 52))
   \<and> js_ge (combineStress (Num 1) (Num (3 / 4))) (combineStress (Num (1 / 4)) (Num (1 / 2)))
   \<and> combineStress (Num 0) (Num 0) = Num 0
   \<and> combineStress (Num 1) (Num (1 / 2)) = Num 1"
proof -
  have h: "(0::real) \<le> 1 / 4" "(1 / 4 :: real) \<le> 1" "(0::real) \<le> 1 / 2" "(1 / 2 :: real) \<le> 1"
    by simp_all
  note c1 = combineStress_double_properties [OF h]
  from c1
  have a: "js_ge (combineStress (Num (1 / 4)) (Num (1 / 2)))
      (Num (max (1 / 4) (1 / 2) - 1 / 2 ^ 52))"
    by blast
  have "(1 / 4 :: real) \<le> 1 \<and> (1::real) \<le> 1 \<and> (1 / 2 :: real) \<le> 3 / 4 \<and> (3 / 4 :: real) \<le> 1"
    by simp
  with c1
  have b: "js_ge (combineStress (Num 1) (Num (3 / 4))) (combineStress (Num (1 / 4)) (Num (1 / 2)))"
    by blast
  have u: "(0::real) \<le> 0" "(0::real) \<le> 1" "(1::real) \<le> 1" by simp_all
  from combineStress_double_properties [OF u(1) u(2) u(1) u(2)]
  have z: "combineStress (Num 0) (Num 0) = Num 0"
    by blast
  from combineStress_double_properties [OF u(2) u(3) h(3) h(4)]
  have o: "combineStress (Num 1) (Num (1 / 2)) = Num 1"
    by blast
  from h a b z o show ?thesis by blast
qed

subsection \<open>The guarded standard deviation\<close>

lemma finite_vals_mem: "Some (Num x) \<in> set vals \<Longrightarrow> x \<in> set (finite_vals vals)"
  by (induction vals rule: finite_vals.induct) auto

lemma finite_vals_single:
  assumes "length (finite_vals vals) < 2" "Some (Num x) \<in> set vals"
  shows "finite_vals vals = [x]"
proof -
  from finite_vals_mem [OF assms(2)] have x: "x \<in> set (finite_vals vals)" .
  then obtain y ys where eq: "finite_vals vals = y # ys" by (cases "finite_vals vals") auto
  with assms(1) have "ys = []" by simp
  with eq x show ?thesis by simp
qed

lemma finite_vals_Num: "finite_vals (map (\<lambda>x. Some (Num x)) xs) = xs"
  by (induction xs) simp_all

lemma std_few: "length (finite_vals vals) < 2 \<Longrightarrow> std vals = NaN"
  by (simp add: std_def)

lemma eps_pos: "0 < eps"
  by (simp add: eps_def)

lemma divisor_few: "length (finite_vals vals) < 2 \<Longrightarrow> js_or (std vals) (Num eps) = Num eps"
  by (simp add: std_few js_or_def)

lemma mean_single: "finite_vals vals = [x] \<Longrightarrow> mean vals = Num x"
  by (simp add: mean_def)

lemma zscore_few:
  assumes "length (finite_vals vals) < 2" "Some (Num x) \<in> set vals"
  shows "js_div (js_sub (Num x) (mean vals)) (js_or (std vals) (Num eps)) = Num 0"
  using eps_pos
  by (simp add: divisor_few [OF assms(1)] mean_single [OF finite_vals_single [OF assms]]
      js_sub_def)

lemma zSpread_point:
  assumes "i < length rows"
  shows "zSpread (points (computeBeginnerPlus rows k) ! i) =
     js_div (js_sub (toNumber (f_spread (rows ! i))) (mean (map f_spread rows)))
       (js_or (std (map f_spread rows)) (Num eps))"
  using assms by (simp add: points_computeBeginnerPlus scorePoint_def Let_def)

lemma pRepo_point:
  assumes "i < length rows" "f_repoLogChg5 (rows ! i) = Some v"
  shows "pRepo (points (computeBeginnerPlus rows k) ! i) =
     tailProbFromZ
       (js_div (js_sub v (mean (filter (\<lambda>v. v \<noteq> None) (map f_repoLogChg5 rows))))
          (js_or (std (filter (\<lambda>v. v \<noteq> None) (map f_repoLogChg5 rows))) (Num eps))) k"
  using assms by (simp add: points_computeBeginnerPlus scorePoint_def Let_def)

text \<open>On every input the divisor of a z-score is a positive finite number.\<close>

lemma foldl_sq_nonneg:
  fixes a m :: real
  shows "0 \<le> a \<Longrightarrow> 0 \<le> foldl (\<lambda>acc x. acc + (x - m) * (x - m)) a xs"
  by (induction xs arbitrary: a) simp_all

lemma std_cases: "std vals = NaN \<or> (\<exists>s. 0 \<le> s \<and> std vals = Num s)"
proof (cases "length (finite_vals vals) < 2")
  case True
  then show ?thesis by (simp add: std_def)
next
  case False
  then have ne: "finite_vals vals \<noteq> []" by auto
  let ?xs = "finite_vals vals"
  let ?m = "foldl (\<lambda>a b. a + b) 0 ?xs / real (length ?xs)"
  have m: "mean (map (\<lambda>x. Some (Num x)) ?xs) = Num ?m"
    using ne by (simp add: mean_def finite_vals_Num Let_def)
  have "0 \<le> foldl (\<lambda>acc x. acc + (x - ?m) * (x - ?m)) 0 ?xs / real (length ?xs - 1)"
    by (intro divide_nonneg_nonneg foldl_sq_nonneg) simp_all
  then show ?thesis using False by (simp add: std_def m Let_def)
qed

lemma divisor_pos: "\<exists>s. 0 < s \<and> js_or (std vals) (Num eps) = Num s"
  using std_cases [of vals] eps_pos by (auto simp: js_or_def)

text \<open>
  C7, as the spec states it, fails where the feature series has no finite value at all:
  the divisor is the constant, but the mean is \<open>NaN\<close>, and so is the z-score of every
  row; here two rows with a \<open>null\<close> spread.
\<close>

theorem zscore_no_finite_value_counterexample:
  "length (finite_vals (map f_spread nullSpreadRows)) < 2
   \<and> js_or (std (map f_spread nullSpreadRows)) (Num eps) = Num eps
   \<and> mean (map f_spread nullSpreadRows) = NaN
   \<and> zSpread (points (computeBeginnerPlus nullSpreadRows (Num (25 / 10))) ! 0) = NaN
   \<and> zSpread (points (computeBeginnerPlus nullSpreadRows (Num (25 / 10))) ! 1) = NaN"
  by (simp add: nullSpreadRows_def zSpread_point mean_def std_def js_or_def js_sub_def)

text \<open>
  C7, amended. When a feature series (the spreads of the rows, or their non-null
  \<open>repoLogChg5\<close>) has fewer than two finite values, \<open>std\<close> is \<open>NaN\<close> and the model divides by
  the constant \<open>1e-9\<close>, which is positive: it returns a point for every row, the z-score
  of each row is \<open>(value - mean) / 1e-9\<close> (a \<open>null\<close> spread read as 0), and a row whose
  feature value is finite gets the z-score 0. For the repo feature, whose z-score is not
  returned, \<open>pRepo\<close> is the tail probability of that quotient (which, with fewer than
  two finite values, is 0, \<open>NaN\<close> or infinite whatever the positive divisor; only a \<open>null\<close>
  spread, read as 0, makes the divisor visible in the result).
\<close>

theorem zscore_epsilon_divisor:
  "(length (finite_vals (map f_spread rows)) < 2 \<longrightarrow>
      std (map f_spread rows) = NaN
      \<and> (\<forall>i<length rows.
            zSpread (points (computeBeginnerPlus rows k) ! i)
              = js_div (js_sub (toNumber (f_spread (rows ! i))) (mean (map f_spread rows)))
                  (Num eps))
      \<and> (\<forall>i<length rows. \<forall>x. f_spread (rows ! i) = Some (Num x) \<longrightarrow>
            zSpread (points (computeBeginnerPlus rows k) ! i) = Num 0))
   \<and> (length (finite_vals (filter (\<lambda>v. v \<noteq> None) (map f_repoLogChg5 rows))) < 2 \<longrightarrow>
      std (filter (\<lambda>v. v \<noteq> None) (map f_repoLogChg5 rows)) = NaN
      \<and> (\<forall>i<length rows. \<forall>v. f_repoLogChg5 (rows ! i) = Some v \<longrightarrow>
            pRepo (points (computeBeginnerPlus rows k) ! i)
              = tailProbFromZ
                  (js_div
                     (js_sub v (mean (filter (\<lambda>v. v \<noteq> None) (map f_repoLogChg5 rows))))
                     (Num eps)) k)
      \<and> (\<forall>i<length rows. \<forall>x. f_repoLogChg5 (rows ! i) = Some (Num x) \<longrightarrow>
            pRepo (points (computeBeginnerPlus rows k) ! i) = tailProbFromZ (Num 0) k))
   \<and> eps = 1 / 10 ^ 9 \<and> 0 < eps
   \<and> length (points (computeBeginnerPlus rows k)) = length rows"
proof (intro conjI impI allI)
  assume h: "length (finite_vals (map f_spread rows)) < 2"
  then show "std (map f_spread rows) = NaN" by (rule std_few)
  fix i assume i: "i < length rows"
  show "zSpread (points (computeBeginnerPlus rows k) ! i)
      = js_div (js_sub (toNumber (f_spread (rows ! i))) (mean (map f_spread rows))) (Num eps)"
    by (simp only: zSpread_point [OF i] divisor_few [OF h])
  fix x assume x: "f_spread (rows ! i) = Some (Num x)"
  with i have "Some (Num x) \<in> set (map f_spread rows)"
    by (metis length_map nth_map nth_mem)
  from zscore_few [OF h this] show "zSpread (points (computeBeginnerPlus rows k) ! i) = Num 0"
    by (simp add: zSpread_point [OF i] x)
next
  let ?vals = "filter (\<lambda>v. v \<noteq> None) (map f_repoLogChg5 rows)"
  assume h: "length (finite_vals ?vals) < 2"
  then show "std ?vals = NaN" by (rule std_few)
  fix i assume i: "i < length rows"
  {
    fix v assume v: "f_repoLogChg5 (rows ! i) = Some v"
    show "pRepo (points (computeBeginnerPlus rows k) ! i)
        = tailProbFromZ (js_div (js_sub v (mean ?vals)) (Num eps)) k"
      by (simp only: pRepo_point [OF i v] divisor_few [OF h])
  }
  fix x assume x: "f_repoLogChg5 (rows ! i) = Some (Num x)"
  with i have "Some (Num x) \<in> set (map f_repoLogChg5 rows)"
    by (metis length_map nth_map nth_mem)
  then have "Some (Num x) \<in> set ?vals" by simp
  from zscore_few [OF h this]
  show "pRepo (points (computeBeginnerPlus rows k) ! i) = tailProbFromZ (Num 0) k"
    by (simp add: pRepo_point [OF i x])
next
  show "eps = 1 / 10 ^ 9" by (rule eps_def)
  show "0 < eps" by (rule eps_pos)
  show "length (points (computeBeginnerPlus rows k)) = length rows" by (rule length_points)
qed

theorem zscore_epsilon_divisor_witness:
  "length (finite_vals (map f_spread guardRows)) < 2
   \<and> zSpread (points (computeBeginnerPlus guardRows (Num (25 / 10))) ! 0) = Num 0
   \<and> zSpread (points (computeBeginnerPlus guardRows (Num (25 / 10))) ! 1)
       = js_div (Num (- (1 / 2))) (Num eps)
   \<and> length (finite_vals (filter (\<lambda>v. v \<noteq> None) (map f_repoLogChg5 guardRows))) < 2
   \<and> pRepo (points (computeBeginnerPlus guardRows (Num (25 / 10))) ! 0)
       = tailProbFromZ (Num 0) (Num (25 / 10))"
proof -
  have h1: "length (finite_vals (map f_spread guardRows)) < 2"
    and h2: "length (finite_vals (filter (\<lambda>v. v \<noteq> None) (map f_repoLogChg5 guardRows))) < 2"
    by (simp_all add: guardRows_def)
  have i: "0 < length guardRows" "1 < length guardRows"
    and s: "f_spread (guardRows ! 0) = Some (Num (1 / 2))"
    and r: "f_repoLogChg5 (guardRows ! 0) = Some (Num (3 / 10))"
    by (simp_all add: guardRows_def)
  have q: "js_div (js_sub (toNumber (f_spread (guardRows ! 1))) (mean (map f_spread guardRows)))
             (Num eps)
      = js_div (Num (- (1 / 2))) (Num eps)"
    by (simp add: guardRows_def mean_def js_sub_def)
  note c7 = zscore_epsilon_divisor [of guardRows "Num (25 / 10)"]
  from c7 h1 i(1) s
  have a: "zSpread (points (computeBeginnerPlus guardRows (Num (25 / 10))) ! 0) = Num 0"
    by blast
  from c7 h1 i(2)
  have "zSpread (points (computeBeginnerPlus guardRows (Num (25 / 10))) ! 1)
      = js_div (js_sub (toNumber (f_spread (guardRows ! 1))) (mean (map f_spread guardRows)))
          (Num eps)"
    by blast
  then have b: "zSpread (points (computeBeginnerPlus guardRows (Num (25 / 10))) ! 1)
      = js_div (Num (- (1 / 2))) (Num eps)"
    by (simp only: q)
  from c7 h2 i(1) r
  have c: "pRepo (points (computeBeginnerPlus guardRows (Num (25 / 10))) ! 0)
       = tailProbFromZ (Num 0) (Num (25 / 10))"
    by blast
  from h1 a b h2 c show ?thesis by blast
qed

end
